theory Spec2Isabelle
  imports Complex_Main
begin

section \<open>Common conventions\<close>

text \<open>
  Two scripts are embedded: \<^verbatim>\<open>public/favicon/favicon_to_png.py\<close> and
  \<^verbatim>\<open>src/assets/projects/retargeting/compress_gif.py\<close>.

  Python floats are modelled as exact reals: rounding, infinities and NaN are outside the
  model. Where the source holds an \<^verbatim>\<open>int\<close> in one branch and a \<^verbatim>\<open>float\<close> in another, the
  value is a \<open>number\<close>, which keeps the two apart. Python strings are \<open>string\<close>; a character is a code point below 256. Exceptions
  are values of \<open>error\<close>; a function that can raise returns \<open>error + 'a\<close>, and a function
  with effects returns the possibly raised exception together with the world it leaves.
  Library calls whose code is not part of the repository (the XML parser, \<^verbatim>\<open>float\<close>, the
  formatting of a float, the rasteriser, the image operations of Pillow) are fields of a
  library record, so that every theorem holds for whatever these functions compute.
\<close>

datatype error =
    ParseError
  | ValueError
  | ZeroDivisionError
  | FileNotFoundError
  | LibraryError string

section \<open>favicon\_to\_png.py\<close>

subsection \<open>Numbers\<close>

text \<open>A Python number that is an \<^verbatim>\<open>int\<close> or a \<^verbatim>\<open>float\<close>.\<close>

datatype number = PyInt int | PyFloat real

fun value_of :: "number \<Rightarrow> real" where
  "value_of (PyInt i) = of_int i"
| "value_of (PyFloat x) = x"

text \<open>\<^verbatim>\<open>a - b\<close>: an \<^verbatim>\<open>int\<close> when both are, a \<^verbatim>\<open>float\<close> otherwise.\<close>

fun num_sub :: "number \<Rightarrow> number \<Rightarrow> number" where
  "num_sub (PyInt a) (PyInt b) = PyInt (a - b)"
| "num_sub a b = PyFloat (value_of a - value_of b)"

text \<open>\<^verbatim>\<open>max(a, b)\<close>: the first argument unless the second is greater.\<close>

definition py_max2 :: "number \<Rightarrow> number \<Rightarrow> number" where
  "py_max2 a b = (if value_of b > value_of a then b else a)"

subsection \<open>Strings\<close>

text \<open>\<^verbatim>\<open>str.isspace\<close>, which is also \<^verbatim>\<open>\s\<close> in a pattern, on code points below 256.\<close>

definition is_space :: "char \<Rightarrow> bool" where
  "is_space c = (of_char c \<in> set [9, 10, 11, 12, 13, 28, 29, 30, 31, 32, 133, 160 :: nat])"

text \<open>\<^verbatim>\<open>\d\<close> on code points below 256.\<close>

definition is_digit :: "char \<Rightarrow> bool" where
  "is_digit c = (c \<in> set ''0123456789'')"

text \<open>\<^verbatim>\<open>[,\s]\<close>\<close>

definition is_sep :: "char \<Rightarrow> bool" where
  "is_sep c = (c = CHR '','' \<or> is_space c)"

text \<open>\<^verbatim>\<open>s.endswith(suf)\<close>\<close>

definition endswith :: "string \<Rightarrow> string \<Rightarrow> bool" where
  "endswith s suf = (length suf \<le> length s \<and> drop (length s - length suf) s = suf)"

text \<open>\<^verbatim>\<open>s.strip()\<close>\<close>

definition strip :: "string \<Rightarrow> string" where
  "strip s = rev (dropWhile is_space (rev (dropWhile is_space s)))"

text \<open>\<^verbatim>\<open>re.sub(r"\s+", " ", s)\<close>: every maximal run of whitespace becomes one space.\<close>

fun collapse_ws :: "string \<Rightarrow> string" where
  "collapse_ws [] = []"
| "collapse_ws [c] = (if is_space c then '' '' else [c])"
| "collapse_ws (c # d # s) =
     (if is_space c then (if is_space d then collapse_ws (d # s) else CHR '' '' # collapse_ws (d # s))
      else c # collapse_ws (d # s))"

text \<open>\<^verbatim>\<open>s.replace(",", " ")\<close>\<close>

definition replace_commas :: "string \<Rightarrow> string" where
  "replace_commas s = map (\<lambda>c. if c = CHR '','' then CHR '' '' else c) s"

text \<open>\<^verbatim>\<open>s.split()\<close>: the maximal runs of non-whitespace, in order.\<close>

fun split_acc :: "string \<Rightarrow> string \<Rightarrow> string list" where
  "split_acc cur [] = (if cur = [] then [] else [cur])"
| "split_acc cur (c # cs) =
     (if is_space c then (if cur = [] then split_acc [] cs else cur # split_acc [] cs)
      else split_acc (cur @ [c]) cs)"

definition split_ws :: "string \<Rightarrow> string list" where
  "split_ws s = split_acc [] s"

text \<open>\<^verbatim>\<open>str(n)\<close> for an integer.\<close>

fun digits_of :: "nat \<Rightarrow> nat \<Rightarrow> string" where
  "digits_of 0 n = []"
| "digits_of (Suc fuel) n =
     (if n < 10 then [char_of (48 + n)] else digits_of fuel (n div 10) @ [char_of (48 + n mod 10)])"

definition str_int :: "int \<Rightarrow> string" where
  "str_int i = (if i < 0 then CHR ''-'' # digits_of (Suc (nat (- i))) (nat (- i))
                else digits_of (Suc (nat i)) (nat i))"

subsection \<open>The pattern of \<open>parse_path_data\<close>\<close>

text \<open>
  \<^verbatim>\<open>-?\d+(?:\.\d+)?\<close> at the head of a string: the matched text and the rest. Both
  repetitions are greedy, and no shorter alternative can help a later part of the pattern,
  since what follows a number in the pattern is a separator or the end.
\<close>

definition match_number :: "string \<Rightarrow> (string \<times> string) option" where
  "match_number s =
     (let (sign, s1) = (case s of [] \<Rightarrow> ([], s)
                        | c # t \<Rightarrow> if c = CHR ''-'' then (''-'', t) else ([], s));
          ds = takeWhile is_digit s1;
          s2 = dropWhile is_digit s1
      in if ds = [] then None
         else (case s2 of [] \<Rightarrow> Some (sign @ ds, s2)
               | c # t \<Rightarrow>
                   if c = CHR ''.'' \<and> takeWhile is_digit t \<noteq> []
                   then Some (sign @ ds @ ''.'' @ takeWhile is_digit t, dropWhile is_digit t)
                   else Some (sign @ ds, s2)))"

text \<open>\<^verbatim>\<open>(-?\d+(?:\.\d+)?)[,\s]+(-?\d+(?:\.\d+)?)\<close> at the head of a string.\<close>

definition match_pair :: "string \<Rightarrow> ((string \<times> string) \<times> string) option" where
  "match_pair s =
     (case match_number s of None \<Rightarrow> None
      | Some (a, r1) \<Rightarrow>
          if takeWhile is_sep r1 = [] then None
          else (case match_number (dropWhile is_sep r1) of None \<Rightarrow> None
                | Some (b, r2) \<Rightarrow> Some ((a, b), r2)))"

text \<open>
  \<^verbatim>\<open>re.findall\<close>: the leftmost match, then on from its end. \<open>skip\<close> counts the characters
  of the current match that the scan still has to step over.
\<close>

fun findall :: "nat \<Rightarrow> string \<Rightarrow> (string \<times> string) list" where
  "findall skip [] = []"
| "findall (Suc skip) (c # s) = findall skip s"
| "findall 0 (c # s) =
     (case match_pair (c # s) of None \<Rightarrow> findall 0 s
      | Some (m, r) \<Rightarrow> m # findall (length s - length r) s)"

subsection \<open>Documents\<close>

text \<open>An \<^verbatim>\<open>xml.etree.ElementTree.Element\<close>: tag, attribute dictionary, children.\<close>

datatype element = Element (tag: string) (attrib: "(string \<times> string) list") (children: "element list")

text \<open>\<^verbatim>\<open>elem.get(key)\<close>\<close>

definition get :: "element \<Rightarrow> string \<Rightarrow> string option" where
  "get e k = map_of (attrib e) k"

text \<open>\<^verbatim>\<open>elem.set(key, value)\<close>\<close>

fun update :: "string \<Rightarrow> string \<Rightarrow> (string \<times> string) list \<Rightarrow> (string \<times> string) list" where
  "update k v [] = [(k, v)]"
| "update k v (p # ps) = (if fst p = k then (k, v) # ps else p # update k v ps)"

definition set_attr :: "element \<Rightarrow> string \<Rightarrow> string \<Rightarrow> element" where
  "set_attr e k v = Element (tag e) (update k v (attrib e)) (children e)"

text \<open>\<^verbatim>\<open>root.iter()\<close>: the element, then its descendants, in document order.\<close>

fun iter :: "element \<Rightarrow> element list" where
  "iter (Element t a cs) = Element t a cs # concat (map iter cs)"

text \<open>\<^verbatim>\<open>elem.tag.split("}")[-1] if "}" in elem.tag else elem.tag\<close>\<close>

definition local_tag :: "string \<Rightarrow> string" where
  "local_tag t = (if CHR ''}'' \<in> set t then rev (takeWhile (\<lambda>c. c \<noteq> CHR ''}'') (rev t)) else t)"

subsection \<open>The library\<close>

record library =
  ET_fromstring :: "string \<Rightarrow> element option"
  ET_tostring :: "element \<Rightarrow> string"
  py_float :: "string \<Rightarrow> real option"
  fmt_float :: "real \<Rightarrow> string"
  svg2png :: "string \<Rightarrow> int \<Rightarrow> int \<Rightarrow> error + string"

text \<open>
  \<open>ET_fromstring\<close> is \<open>None\<close> where the parser raises \<^verbatim>\<open>ParseError\<close>; \<open>py_float\<close> is
  \<open>None\<close> where \<^verbatim>\<open>float\<close> raises \<^verbatim>\<open>ValueError\<close>; \<open>fmt_float\<close> is the text of a float
  inside an f-string; \<open>svg2png\<close> is \<^verbatim>\<open>cairosvg.svg2png\<close> with the document, \<^verbatim>\<open>output_width\<close>
  and \<^verbatim>\<open>output_height\<close>.
\<close>

subsection \<open>\<open>parse_path_data\<close>\<close>

type_synonym point = "real \<times> real"

fun to_points :: "(string \<Rightarrow> real option) \<Rightarrow> (string \<times> string) list \<Rightarrow> error + point list" where
  "to_points f [] = Inr []"
| "to_points f ((a, b) # ms) =
     (case f a of None \<Rightarrow> Inl ValueError
      | Some x \<Rightarrow>
          (case f b of None \<Rightarrow> Inl ValueError
           | Some y \<Rightarrow>
               (case to_points f ms of Inl e \<Rightarrow> Inl e | Inr ps \<Rightarrow> Inr ((x, y) # ps))))"

definition parse_path_data :: "library \<Rightarrow> string \<Rightarrow> error + point list" where
  "parse_path_data L path_data =
     to_points (py_float L) (findall 0 (collapse_ws (strip path_data)))"

subsection \<open>\<open>get_svg_content_bounds\<close>\<close>

text \<open>\<^verbatim>\<open>float(elem.get(key, 0))\<close>\<close>

definition attr_float :: "library \<Rightarrow> element \<Rightarrow> string \<Rightarrow> real option" where
  "attr_float L e k = (case get e k of None \<Rightarrow> Some 0 | Some s \<Rightarrow> py_float L s)"

text \<open>Four attributes read in the order of the source; the first failure raises.\<close>

definition attr_floats4 ::
  "library \<Rightarrow> element \<Rightarrow> string \<Rightarrow> string \<Rightarrow> string \<Rightarrow> string \<Rightarrow> error + (real \<times> real \<times> real \<times> real)" where
  "attr_floats4 L e k1 k2 k3 k4 =
     (case attr_float L e k1 of None \<Rightarrow> Inl ValueError
      | Some a \<Rightarrow>
     (case attr_float L e k2 of None \<Rightarrow> Inl ValueError
      | Some b \<Rightarrow>
     (case attr_float L e k3 of None \<Rightarrow> Inl ValueError
      | Some c \<Rightarrow>
     (case attr_float L e k4 of None \<Rightarrow> Inl ValueError
      | Some d \<Rightarrow> Inr (a, b, c, d)))))"

definition attr_floats3 ::
  "library \<Rightarrow> element \<Rightarrow> string \<Rightarrow> string \<Rightarrow> string \<Rightarrow> error + (real \<times> real \<times> real)" where
  "attr_floats3 L e k1 k2 k3 =
     (case attr_float L e k1 of None \<Rightarrow> Inl ValueError
      | Some a \<Rightarrow>
     (case attr_float L e k2 of None \<Rightarrow> Inl ValueError
      | Some b \<Rightarrow>
     (case attr_float L e k3 of None \<Rightarrow> Inl ValueError
      | Some c \<Rightarrow> Inr (a, b, c))))"

text \<open>The body of the first loop, for one element.\<close>

definition path_points :: "library \<Rightarrow> element \<Rightarrow> error + point list" where
  "path_points L path =
     (if endswith (tag path) ''path''
      then (case get path ''d'' of None \<Rightarrow> Inr []
            | Some d_attr \<Rightarrow> if d_attr \<noteq> [] then parse_path_data L d_attr else Inr [])
      else Inr [])"

text \<open>The body of the second loop, for one element.\<close>

definition shape_points :: "library \<Rightarrow> element \<Rightarrow> error + point list" where
  "shape_points L elem =
     (let t = local_tag (tag elem) in
      if t = ''rect'' then
        (case attr_floats4 L elem ''x'' ''y'' ''width'' ''height'' of Inl e \<Rightarrow> Inl e
         | Inr (x, y, width, height) \<Rightarrow> Inr [(x, y), (x + width, y + height)])
      else if t = ''circle'' then
        (case attr_floats3 L elem ''cx'' ''cy'' ''r'' of Inl e \<Rightarrow> Inl e
         | Inr (cx, cy, r) \<Rightarrow> Inr [(cx - r, cy - r), (cx + r, cy + r)])
      else if t = ''ellipse'' then
        (case attr_floats4 L elem ''cx'' ''cy'' ''rx'' ''ry'' of Inl e \<Rightarrow> Inl e
         | Inr (cx, cy, rx, ry) \<Rightarrow> Inr [(cx - rx, cy - ry), (cx + rx, cy + ry)])
      else if t = ''line'' then
        (case attr_floats4 L elem ''x1'' ''y1'' ''x2'' ''y2'' of Inl e \<Rightarrow> Inl e
         | Inr (x1, y1, x2, y2) \<Rightarrow> Inr [(x1, y1), (x2, y2)])
      else if t = ''polyline'' \<or> t = ''polygon'' then
        (case get elem ''points'' of None \<Rightarrow> Inr []
         | Some points_attr \<Rightarrow>
             if points_attr \<noteq> [] then parse_path_data L (replace_commas points_attr) else Inr [])
      else Inr [])"

text \<open>A loop that extends \<open>all_points\<close> and stops at the first exception.\<close>

fun collect :: "('a \<Rightarrow> error + 'b list) \<Rightarrow> 'a list \<Rightarrow> error + 'b list" where
  "collect f [] = Inr []"
| "collect f (x # xs) =
     (case f x of Inl e \<Rightarrow> Inl e
      | Inr ps \<Rightarrow> (case collect f xs of Inl e \<Rightarrow> Inl e | Inr qs \<Rightarrow> Inr (ps @ qs)))"

definition all_points :: "library \<Rightarrow> element \<Rightarrow> error + point list" where
  "all_points L doc =
     (case collect (path_points L) (iter doc) of Inl e \<Rightarrow> Inl e
      | Inr ps \<Rightarrow>
          (case collect (shape_points L) (iter doc) of Inl e \<Rightarrow> Inl e
           | Inr qs \<Rightarrow> Inr (ps @ qs)))"

text \<open>\<^verbatim>\<open>min(xs)\<close> and \<^verbatim>\<open>max(xs)\<close> of a non-empty list, as Python scans it.\<close>

fun py_min :: "real list \<Rightarrow> error + real" where
  "py_min [] = Inl ValueError"
| "py_min (x # xs) = Inr (foldl (\<lambda>m v. if v < m then v else m) x xs)"

fun py_max :: "real list \<Rightarrow> error + real" where
  "py_max [] = Inl ValueError"
| "py_max (x # xs) = Inr (foldl (\<lambda>m v. if v > m then v else m) x xs)"

type_synonym bounds = "number \<times> number \<times> number \<times> number"

text \<open>\<^verbatim>\<open>_, _, width, height = map(float, viewbox.split())\<close>\<close>

definition viewbox_size :: "library \<Rightarrow> string \<Rightarrow> error + (real \<times> real)" where
  "viewbox_size L viewbox =
     (case map (py_float L) (split_ws viewbox) of
        [Some a, Some b, Some width, Some height] \<Rightarrow> Inr (width, height)
      | _ \<Rightarrow> Inl ValueError)"

definition bounding_box :: "point list \<Rightarrow> error + bounds" where
  "bounding_box pts =
     (case py_min (map fst pts) of Inl e \<Rightarrow> Inl e | Inr min_x \<Rightarrow>
     (case py_max (map fst pts) of Inl e \<Rightarrow> Inl e | Inr max_x \<Rightarrow>
     (case py_min (map snd pts) of Inl e \<Rightarrow> Inl e | Inr min_y \<Rightarrow>
     (case py_max (map snd pts) of Inl e \<Rightarrow> Inl e | Inr max_y \<Rightarrow>
        Inr (PyFloat min_x, PyFloat min_y, PyFloat max_x, PyFloat max_y)))))"

definition get_svg_content_bounds :: "library \<Rightarrow> string \<Rightarrow> error + bounds" where
  "get_svg_content_bounds L svg_content =
     (case ET_fromstring L svg_content of None \<Rightarrow> Inl ParseError
      | Some doc \<Rightarrow>
          (case all_points L doc of Inl e \<Rightarrow> Inl e
           | Inr pts \<Rightarrow>
               if pts = [] then
                 (case get doc ''viewBox'' of None \<Rightarrow> Inr (PyInt 0, PyInt 0, PyInt 100, PyInt 100)
                  | Some viewbox \<Rightarrow>
                      if viewbox \<noteq> [] then
                        (case viewbox_size L viewbox of Inl e \<Rightarrow> Inl e
                         | Inr (width, height) \<Rightarrow> Inr (PyInt 0, PyInt 0, PyFloat width, PyFloat height))
                      else Inr (PyInt 0, PyInt 0, PyInt 100, PyInt 100))
               else bounding_box pts))"

subsection \<open>The world of the script\<close>

text \<open>What the script prints, one constructor for each \<^verbatim>\<open>print\<close> of the source.\<close>

datatype message =
    MsgNotFound string
  | MsgContentBounds real real real real
  | MsgContentSize real real
  | MsgSquare real
  | MsgDimensions number number
  | MsgAspect real
  | MsgRendering int int int
  | MsgGenerated string int int
  | MsgAllGenerated
  | MsgGeneratedFiles
  | MsgFile int
  | MsgError error

record world =
  files :: "string \<rightharpoonup> string"
  stdout :: "message list"

definition print :: "message \<Rightarrow> world \<Rightarrow> world" where
  "print m w = w\<lparr>stdout := stdout w @ [m]\<rparr>"

subsection \<open>\<open>get_svg_dimensions\<close> and \<open>calculate_render_size\<close>\<close>

definition get_svg_dimensions ::
  "library \<Rightarrow> string \<Rightarrow> world \<Rightarrow> (error + number \<times> number) \<times> world" where
  "get_svg_dimensions L svg_content w =
     (case get_svg_content_bounds L svg_content of Inl e \<Rightarrow> (Inl e, w)
      | Inr (min_x, min_y, max_x, max_y) \<Rightarrow>
          (let content_width = num_sub max_x min_x;
               content_height = num_sub max_y min_y;
               square_size = py_max2 content_width content_height;
               w1 = print (MsgContentBounds (value_of min_x) (value_of min_y)
                             (value_of max_x) (value_of max_y)) w;
               w2 = print (MsgContentSize (value_of content_width) (value_of content_height)) w1;
               w3 = print (MsgSquare (value_of square_size)) w2
           in (Inr (square_size, square_size), w3)))"

definition calculate_render_size :: "number \<Rightarrow> number \<Rightarrow> int \<Rightarrow> int \<times> int" where
  "calculate_render_size svg_width svg_height target_size = (target_size, target_size)"

subsection \<open>\<open>svg_to_png\<close>\<close>

text \<open>The text of a number inside an f-string.\<close>

definition fmt_number :: "library \<Rightarrow> number \<Rightarrow> string" where
  "fmt_number L n = (case n of PyInt i \<Rightarrow> str_int i | PyFloat x \<Rightarrow> fmt_float L x)"

text \<open>
  \<^verbatim>\<open>f"{new_min_x} {new_min_y} {square_size} {square_size}"\<close>. The two origins are floats,
  being results of a division; the side is whatever number \<open>square_size\<close> is.
\<close>

definition viewbox_text :: "library \<Rightarrow> real \<Rightarrow> real \<Rightarrow> number \<Rightarrow> string" where
  "viewbox_text L new_min_x new_min_y square_size =
     fmt_float L new_min_x @ '' '' @ fmt_float L new_min_y @ '' '' @
     fmt_number L square_size @ '' '' @ fmt_number L square_size"

text \<open>
  The first part of \<open>svg_to_png\<close>, up to the three \<^verbatim>\<open>root.set\<close> calls: the document that
  is handed to the rasteriser. \<^verbatim>\<open>x / 2\<close> is a float whatever \<open>x\<close> is, and so are the sum and
  the difference of a number and a float.
\<close>

definition cropped_document :: "library \<Rightarrow> string \<Rightarrow> int \<Rightarrow> int \<Rightarrow> error + element" where
  "cropped_document L svg_content width height =
     (case get_svg_content_bounds L svg_content of Inl e \<Rightarrow> Inl e
      | Inr (min_x, min_y, max_x, max_y) \<Rightarrow>
          (let content_width = num_sub max_x min_x;
               content_height = num_sub max_y min_y
           in case ET_fromstring L svg_content of None \<Rightarrow> Inl ParseError
              | Some doc \<Rightarrow>
                  (let square_size = py_max2 content_width content_height;
                       center_x = value_of min_x + value_of content_width / 2;
                       center_y = value_of min_y + value_of content_height / 2;
                       new_min_x = center_x - value_of square_size / 2;
                       new_min_y = center_y - value_of square_size / 2;
                       doc1 = set_attr doc ''viewBox'' (viewbox_text L new_min_x new_min_y square_size);
                       doc2 = set_attr doc1 ''width'' (str_int width);
                       doc3 = set_attr doc2 ''height'' (str_int height)
                   in Inr doc3)))"

definition svg_to_png ::
  "library \<Rightarrow> string \<Rightarrow> string \<Rightarrow> int \<Rightarrow> int \<Rightarrow> string \<Rightarrow> world \<Rightarrow> error option \<times> world" where
  "svg_to_png L svg_path output_path width height svg_content w =
     (case cropped_document L svg_content width height of Inl e \<Rightarrow> (Some e, w)
      | Inr doc \<Rightarrow>
          (let modified_svg = ET_tostring L doc
           in case svg2png L modified_svg width height of Inl e \<Rightarrow> (Some e, w)
              | Inr png_data \<Rightarrow>
                  (None, print (MsgGenerated output_path width height)
                           (w\<lparr>files := (files w)(output_path \<mapsto> png_data)\<rparr>))))"

subsection \<open>\<open>main\<close>\<close>

definition target_sizes :: "int list" where
  "target_sizes = [32, 128, 256]"

text \<open>\<^verbatim>\<open>current_dir / f"favicon-{target_size}x{target_size}.png"\<close>\<close>

definition png_path :: "string \<Rightarrow> int \<Rightarrow> string" where
  "png_path current_dir target_size =
     current_dir @ ''/favicon-'' @ str_int target_size @ ''x'' @ str_int target_size @ ''.png''"

text \<open>The body of the rendering loop for one size.\<close>

definition render_size ::
  "library \<Rightarrow> string \<Rightarrow> string \<Rightarrow> number \<Rightarrow> number \<Rightarrow> int \<Rightarrow> world \<Rightarrow> error option \<times> world" where
  "render_size L current_dir svg_content svg_width svg_height target_size w =
     (let (render_width, render_height) = calculate_render_size svg_width svg_height target_size;
          output_path = png_path current_dir target_size;
          w1 = print (MsgRendering target_size render_width render_height) w
      in svg_to_png L (current_dir @ ''/favicon.svg'') output_path render_width render_height
           svg_content w1)"

text \<open>The rendering loop: an exception leaves the loop.\<close>

fun render_loop ::
  "library \<Rightarrow> string \<Rightarrow> string \<Rightarrow> number \<Rightarrow> number \<Rightarrow> int list \<Rightarrow> world \<Rightarrow> error option \<times> world" where
  "render_loop L current_dir svg_content svg_width svg_height [] w = (None, w)"
| "render_loop L current_dir svg_content svg_width svg_height (target_size # rest) w =
     (case render_size L current_dir svg_content svg_width svg_height target_size w of
        (Some e, w1) \<Rightarrow> (Some e, w1)
      | (None, w1) \<Rightarrow> render_loop L current_dir svg_content svg_width svg_height rest w1)"

text \<open>The body of the \<^verbatim>\<open>try\<close> statement of \<open>main\<close>.\<close>

definition main_try :: "library \<Rightarrow> string \<Rightarrow> string \<Rightarrow> world \<Rightarrow> error option \<times> world" where
  "main_try L current_dir svg_content w =
     (case get_svg_dimensions L svg_content w of
        (Inl e, w1) \<Rightarrow> (Some e, w1)
      | (Inr (svg_width, svg_height), w1) \<Rightarrow>
          (let w2 = print (MsgDimensions svg_width svg_height) w1
           in if value_of svg_height = 0 then (Some ZeroDivisionError, w2)
              else (let w3 = print (MsgAspect (value_of svg_width / value_of svg_height)) w2
                    in case render_loop L current_dir svg_content svg_width svg_height target_sizes w3 of
                         (Some e, w4) \<Rightarrow> (Some e, w4)
                       | (None, w4) \<Rightarrow>
                           (None, foldl (\<lambda>v size. print (MsgFile size) v)
                                    (print MsgGeneratedFiles (print MsgAllGenerated w4))
                                    target_sizes))))"

text \<open>
  \<open>main\<close>. The first component of the result is an exception that leaves \<open>main\<close>; the
  handler \<^verbatim>\<open>except Exception as e\<close> turns every exception of the body into a printed line.
\<close>

definition main :: "library \<Rightarrow> string \<Rightarrow> world \<Rightarrow> error option \<times> world" where
  "main L current_dir w =
     (let svg_path = current_dir @ ''/favicon.svg''
      in case files w svg_path of
           None \<Rightarrow> (None, print (MsgNotFound svg_path) w)
         | Some svg_content \<Rightarrow>
             (case main_try L current_dir svg_content w of
                (Some e, w1) \<Rightarrow> (None, print (MsgError e) w1)
              | (None, w1) \<Rightarrow> (None, w1)))"

section \<open>compress\_gif.py\<close>

subsection \<open>Images and files\<close>

text \<open>A raster image: mode, size and pixel data.\<close>

datatype image = Image (mode: string) (img_size: "int \<times> int") (pixels: "nat list")

text \<open>One frame of the sequence: the image and the \<^verbatim>\<open>duration\<close> entry of its \<^verbatim>\<open>info\<close>.\<close>

record frame =
  frame_image :: image
  frame_duration :: "int option"

text \<open>An opened GIF: the four entries of \<^verbatim>\<open>base_gif.info\<close> that are read, and the frames.\<close>

record gif =
  info_duration :: "int option"
  info_loop :: "int option"
  info_disposal :: "int option"
  info_transparency :: "int option"
  gif_frames :: "frame list"

text \<open>
  The call \<^verbatim>\<open>frames[0].save(path, **save_kwargs)\<close>: the image that is saved and the
  keyword arguments.
\<close>

record save_call =
  first_frame :: image
  append_images :: "image list"
  loop :: int
  duration :: "int list"
  disposal :: int
  optimize :: bool
  transparency :: "int option"

text \<open>
  A file is bytes that exist on disk, or the file that a completed \<^verbatim>\<open>save\<close> call produced,
  named by the call. What the writer stores in such a file is \<open>written_frames\<close> below.
\<close>

datatype gfile = Bytes string | Saved save_call

record pillow =
  Image_open :: "gfile \<Rightarrow> error + gif"
  convert_rgba :: "image \<Rightarrow> error + image"
  contain_lanczos :: "image \<Rightarrow> int \<times> int \<Rightarrow> error + image"
  convert_adaptive :: "image \<Rightarrow> error + image"
  save_raises :: "save_call \<Rightarrow> gfile option \<Rightarrow> (error \<times> gfile option) option"

text \<open>
  \<open>Image_open\<close> is \<^verbatim>\<open>Image.open\<close> on the contents of a file, \<open>convert_rgba\<close> is
  \<^verbatim>\<open>convert("RGBA")\<close>, \<open>contain_lanczos\<close> is \<^verbatim>\<open>ImageOps.contain\<close> with the size and
  Lanczos resampling, \<open>convert_adaptive\<close> is \<^verbatim>\<open>convert("P", palette=ADAPTIVE)\<close>. Each
  returns \<open>Inl\<close> where the call raises. \<open>save_raises\<close> tells whether \<^verbatim>\<open>save\<close> raises for a
  call, given what is at the output path: \<open>None\<close> when it completes, otherwise the exception
  and what it leaves at the path.
\<close>

type_synonym disk = "string \<rightharpoonup> gfile"

subsection \<open>\<open>resize_gif\<close>\<close>

text \<open>What the body of the loop does to the image of one frame.\<close>

definition process_frame :: "pillow \<Rightarrow> int \<times> int \<Rightarrow> frame \<Rightarrow> error + image" where
  "process_frame P sz fr =
     (case convert_rgba P (frame_image fr) of Inl e \<Rightarrow> Inl e
      | Inr frame_rgba \<Rightarrow>
          (case contain_lanczos P frame_rgba sz of Inl e \<Rightarrow> Inl e
           | Inr resized_frame \<Rightarrow> convert_adaptive P resized_frame))"

text \<open>The loop over \<^verbatim>\<open>ImageSequence.Iterator(base_gif)\<close>: the lists \<open>frames\<close> and \<open>durations\<close>.\<close>

fun resize_frames ::
  "pillow \<Rightarrow> int \<Rightarrow> int \<times> int \<Rightarrow> frame list \<Rightarrow> error + (image list \<times> int list)" where
  "resize_frames P base_duration sz [] = Inr ([], [])"
| "resize_frames P base_duration sz (fr # rest) =
     (let frame_dur = (case frame_duration fr of None \<Rightarrow> base_duration | Some d \<Rightarrow> d)
      in case process_frame P sz fr of Inl e \<Rightarrow> Inl e
         | Inr palettized \<Rightarrow>
             (case resize_frames P base_duration sz rest of Inl e \<Rightarrow> Inl e
              | Inr (frames, durations) \<Rightarrow> Inr (palettized # frames, frame_dur # durations)))"

definition resize_gif ::
  "pillow \<Rightarrow> string \<Rightarrow> string \<Rightarrow> int \<Rightarrow> int \<Rightarrow> disk \<Rightarrow> error option \<times> disk" where
  "resize_gif P input_path output_path max_width max_height fs =
     (case fs input_path of None \<Rightarrow> (Some FileNotFoundError, fs)
      | Some content \<Rightarrow>
          (case Image_open P content of Inl e \<Rightarrow> (Some e, fs)
           | Inr base_gif \<Rightarrow>
               (let base_duration = (case info_duration base_gif of None \<Rightarrow> 100 | Some d \<Rightarrow> d);
                    base_loop = (case info_loop base_gif of None \<Rightarrow> 0 | Some l \<Rightarrow> l);
                    base_disposal = (case info_disposal base_gif of None \<Rightarrow> 2 | Some d \<Rightarrow> d);
                    transp = info_transparency base_gif
                in case resize_frames P base_duration (max_width, max_height) (gif_frames base_gif) of
                     Inl e \<Rightarrow> (Some e, fs)
                   | Inr (frames, durations) \<Rightarrow>
                       (case frames of [] \<Rightarrow> (Some ValueError, fs)
                        | f0 # others \<Rightarrow>
                            (let save_kwargs =
                                   \<lparr>first_frame = f0, append_images = others, loop = base_loop,
                                    duration = durations, disposal = base_disposal, optimize = True,
                                    transparency = transp\<rparr>
                             in case save_raises P save_kwargs (fs output_path) of
                                  Some (e, left) \<Rightarrow> (Some e, fs(output_path := left))
                                | None \<Rightarrow> (None, fs(output_path \<mapsto> Saved save_kwargs)))))))"


subsection \<open>Pillow\<close>


text \<open>\<^verbatim>\<open>round(x)\<close> of a float: the nearest integer, a tie going to the even one.\<close>

definition py_round :: "real \<Rightarrow> int" where
  "py_round x =
     (let f = \<lfloor>x\<rfloor>; d = x - of_int f
      in if d < 1 / 2 then f else if d > 1 / 2 then f + 1 else if even f then f else f + 1)"

text \<open>
  \<^verbatim>\<open>ImageOps.contain(image, size, method)\<close>, over \<^verbatim>\<open>image.resize\<close>: the requested box is
  shrunk along one axis to the aspect ratio of the image, and the image is resized to it,
  whether that is smaller or larger than the image. The two ratios are divisions, which raise
  on a zero height.
\<close>

definition ImageOps_contain ::
  "(image \<Rightarrow> int \<times> int \<Rightarrow> error + image) \<Rightarrow> image \<Rightarrow> int \<times> int \<Rightarrow> error + image" where
  "ImageOps_contain resize im sz =
     (let (im_width, im_height) = img_size im; (w, h) = sz
      in if im_height = 0 \<or> h = 0 then Inl ZeroDivisionError
         else (let im_ratio = real_of_int im_width / real_of_int im_height;
                   dest_ratio = real_of_int w / real_of_int h
               in if im_ratio \<noteq> dest_ratio then
                    (if im_ratio > dest_ratio then
                       (if im_width = 0 then Inl ZeroDivisionError
                        else (let new_height =
                                    py_round (real_of_int im_height / real_of_int im_width * real_of_int w)
                              in resize im (if new_height \<noteq> h then (w, new_height) else (w, h))))
                     else
                       (let new_width =
                              py_round (real_of_int im_width / real_of_int im_height * real_of_int h)
                        in resize im (if new_width \<noteq> w then (new_width, h) else (w, h))))
                  else resize im (w, h)))"

section \<open>Notions used in the statements\<close>

text \<open>
  The elements that the two loops of \<open>get_svg_content_bounds\<close> look at: those whose tag
  ends in \<^verbatim>\<open>path\<close>, and those whose tag without the namespace is one of the six basic shapes.
\<close>

definition is_shape :: "element \<Rightarrow> bool" where
  "is_shape e = (endswith (tag e) ''path'' \<or>
     local_tag (tag e) \<in> set [''rect'', ''circle'', ''ellipse'', ''line'', ''polyline'', ''polygon''])"

definition shape_elements :: "element \<Rightarrow> element list" where
  "shape_elements doc = filter is_shape (iter doc)"

text \<open>
  What rendering one size yields, whatever the world is: the bytes of the rasteriser, or the
  exception of \<open>svg_to_png\<close>.
\<close>

definition png_of :: "library \<Rightarrow> string \<Rightarrow> int \<Rightarrow> error + string" where
  "png_of L svg_content target_size =
     (case cropped_document L svg_content target_size target_size of Inl e \<Rightarrow> Inl e
      | Inr doc \<Rightarrow> svg2png L (ET_tostring L doc) target_size target_size)"

section \<open>Example inputs\<close>

text \<open>
  A library for the examples: \<^verbatim>\<open>float\<close> is a table of decimal literals, the text of a
  float is given for the floats of integral value, as Python writes them for magnitudes below ten to the
  power 16, the parser knows four documents, the rasteriser returns fixed bytes.
\<close>

definition example_float :: "string \<Rightarrow> real option" where
  "example_float =
     map_of [(''0'', 0), (''10'', 10), (''20'', 20), (''30'', 30), (''40'', 40), (''50'', 50)]"

definition example_fmt :: "real \<Rightarrow> string" where
  "example_fmt x = (if x = of_int \<lfloor>x\<rfloor> then str_int \<lfloor>x\<rfloor> @ ''.0'' else [])"

fun example_tostring :: "element \<Rightarrow> string" where
  "example_tostring (Element t a cs) =
     ''<'' @ t @ concat (map (\<lambda>(k, v). '' '' @ k @ ''='' @ [CHR 0x22] @ v @ [CHR 0x22]) a) @ ''>'' @
     concat (map example_tostring cs) @ ''</'' @ t @ ''>''"

definition circle_svg :: string where
  "circle_svg = ''<svg><circle cx=\"50\" cy=\"50\" r=\"40\"/></svg>''"

definition circle_elem :: element where
  "circle_elem = Element ''circle'' [(''cx'', ''50''), (''cy'', ''50''), (''r'', ''40'')] []"

definition circle_doc :: element where
  "circle_doc = Element ''svg'' [] [circle_elem]"

definition rects_svg :: string where
  "rects_svg = ''<svg><rect x=\"10\" y=\"20\" width=\"30\" height=\"40\"/><rect y=\"50\" width=\"20\" height=\"10\"/></svg>''"

definition rect_elems :: "element list" where
  "rect_elems =
     [Element ''rect'' [(''x'', ''10''), (''y'', ''20''), (''width'', ''30''), (''height'', ''40'')] [],
      Element ''rect'' [(''y'', ''50''), (''width'', ''20''), (''height'', ''10'')] []]"

definition rects_doc :: element where
  "rects_doc = Element ''svg'' [] rect_elems"

definition viewbox_svg :: string where
  "viewbox_svg = ''<svg viewBox=\"10 20 30 40\"/>''"

definition viewbox_doc :: element where
  "viewbox_doc = Element ''svg'' [(''viewBox'', ''10 20 30 40'')] []"

definition empty_svg :: string where
  "empty_svg = ''<svg/>''"

definition empty_doc :: element where
  "empty_doc = Element ''svg'' [] []"

definition example_library :: library where
  "example_library =
     \<lparr>ET_fromstring = map_of [(circle_svg, circle_doc), (rects_svg, rects_doc),
                              (viewbox_svg, viewbox_doc), (empty_svg, empty_doc)],
      ET_tostring = example_tostring,
      py_float = example_float,
      fmt_float = example_fmt,
      svg2png = (\<lambda>doc width height. Inr ''PNG'')\<rparr>"

text \<open>The same library with a rasteriser that fails for the width 128 only.\<close>

definition failing_library :: library where
  "failing_library =
     example_library\<lparr>svg2png :=
       (\<lambda>doc width height. if width = 128 then Inl (LibraryError ''MemoryError'') else Inr ''PNG'')\<rparr>"

definition example_world :: world where
  "example_world = \<lparr>files = [''/site/favicon.svg'' \<mapsto> circle_svg], stdout = []\<rparr>"

text \<open>
  Four GIFs without metadata: two different frames, no frame, three identical frames, one
  frame of 100 by 50 pixels; and a Pillow for them. Its \<^verbatim>\<open>resize\<close> sets the size and leaves
  the pixel data to stand for the resampled data; its \<^verbatim>\<open>save\<close> raises on an empty image.
\<close>

definition example_frames :: "frame list" where
  "example_frames =
     [\<lparr>frame_image = Image ''P'' (360, 360) [0, 1], frame_duration = None\<rparr>,
      \<lparr>frame_image = Image ''P'' (360, 360) [1, 0], frame_duration = None\<rparr>]"

definition example_gif :: gif where
  "example_gif =
     \<lparr>info_duration = None, info_loop = None, info_disposal = None, info_transparency = None,
      gif_frames = example_frames\<rparr>"

definition still_frame :: frame where
  "still_frame = \<lparr>frame_image = Image ''P'' (360, 360) [0, 1], frame_duration = None\<rparr>"

definition still_gif :: gif where
  "still_gif = example_gif\<lparr>gif_frames := [still_frame, still_frame, still_frame]\<rparr>"

definition small_frame :: frame where
  "small_frame = \<lparr>frame_image = Image ''P'' (100, 50) [0, 1], frame_duration = None\<rparr>"

definition small_gif :: gif where
  "small_gif = example_gif\<lparr>gif_frames := [small_frame]\<rparr>"

definition example_resize :: "image \<Rightarrow> int \<times> int \<Rightarrow> error + image" where
  "example_resize im sz = Inr (Image (mode im) sz (pixels im))"

definition example_pillow :: pillow where
  "example_pillow =
     \<lparr>Image_open = (\<lambda>f. if f = Bytes ''two frames'' then Inr example_gif
                        else if f = Bytes ''no frames'' then Inr (example_gif\<lparr>gif_frames := []\<rparr>)
                        else if f = Bytes ''three identical frames'' then Inr still_gif
                        else if f = Bytes ''one small frame'' then Inr small_gif
                        else Inl (LibraryError ''UnidentifiedImageError'')),
      convert_rgba = (\<lambda>im. Inr (Image ''RGBA'' (img_size im) (pixels im))),
      contain_lanczos = ImageOps_contain example_resize,
      convert_adaptive = (\<lambda>im. Inr (Image ''P'' (img_size im) (pixels im))),
      save_raises = (\<lambda>c left.
        if fst (img_size (first_frame c)) = 0 \<or> snd (img_size (first_frame c)) = 0
        then Some (LibraryError ''empty image'', left) else None)\<rparr>"

definition example_disk :: disk where
  "example_disk =
     [''in.gif'' \<mapsto> Bytes ''two frames'', ''empty.gif'' \<mapsto> Bytes ''no frames'',
      ''still.gif'' \<mapsto> Bytes ''three identical frames'', ''small.gif'' \<mapsto> Bytes ''one small frame'']"

section \<open>Properties of \<open>resize_gif\<close>\<close>


lemma resize_frames_durations:
  "resize_frames P bd sz frs = Inr (ims, ds) \<Longrightarrow>
   ds = map (\<lambda>fr. case frame_duration fr of None \<Rightarrow> bd | Some d \<Rightarrow> d) frs"
  by (induction frs arbitrary: ims ds) (auto simp: Let_def split: sum.splits prod.splits)



lemma resize_gif_written:
  assumes "resize_gif P inp out mw mh fs = (None, fs')"
  shows "\<exists>content g ims ds. fs inp = Some content \<and> Image_open P content = Inr g
      \<and> resize_frames P (case info_duration g of None \<Rightarrow> 100 | Some d \<Rightarrow> d) (mw, mh) (gif_frames g) = Inr (ims, ds)
      \<and> ims \<noteq> []
      \<and> fs' = fs(out \<mapsto> Saved
           \<lparr>first_frame = hd ims, append_images = tl ims,
            loop = (case info_loop g of None \<Rightarrow> 0 | Some l \<Rightarrow> l),
            duration = ds,
            disposal = (case info_disposal g of None \<Rightarrow> 2 | Some d \<Rightarrow> d),
            optimize = True, transparency = info_transparency g\<rparr>)"
  using assms
  by (auto simp: resize_gif_def Let_def split: option.splits sum.splits prod.splits list.splits)




lemma example_in_gif:
  "example_disk ''in.gif'' = Some (Bytes ''two frames'')"
  "Image_open example_pillow (Bytes ''two frames'') = Inr example_gif"
  "example_disk ''out.gif'' = None"
  by (simp_all add: example_disk_def example_pillow_def)

lemma example_save_completes:
  "0 < fst (img_size (first_frame c)) \<Longrightarrow> 0 < snd (img_size (first_frame c)) \<Longrightarrow>
   save_raises example_pillow c left = None"
  by (simp add: example_pillow_def)

lemma example_process_same_size:
  "img_size im = (360, 360) \<Longrightarrow>
   process_frame example_pillow (360, 360) \<lparr>frame_image = im, frame_duration = d\<rparr>
     = Inr (Image ''P'' (360, 360) (pixels im))"
  by (simp add: process_frame_def example_pillow_def ImageOps_contain_def example_resize_def)

lemma example_in_result:
  "resize_gif example_pillow ''in.gif'' ''out.gif'' 360 360 example_disk =
     (None, example_disk(''out.gif'' \<mapsto> Saved
        \<lparr>first_frame = Image ''P'' (360, 360) [0, 1], append_images = [Image ''P'' (360, 360) [1, 0]],
         loop = 0, duration = [100, 100], disposal = 2, optimize = True, transparency = None\<rparr>))"
  by (simp add: resize_gif_def example_in_gif example_gif_def example_frames_def
      example_process_same_size example_save_completes)



text \<open>
  Claim C9. A missing input raises \<open>FileNotFoundError\<close>; an input from which no frame is
  extracted raises \<open>ValueError\<close>, a different exception; in both cases the disk is left as it
  was, so no output file is written.
\<close>

theorem resize_gif_failures:
  "(fs inp = None \<longrightarrow> resize_gif P inp out mw mh fs = (Some FileNotFoundError, fs))
   \<and> (\<forall>content g. fs inp = Some content \<and> Image_open P content = Inr g \<and> gif_frames g = []
        \<longrightarrow> resize_gif P inp out mw mh fs = (Some ValueError, fs))
   \<and> FileNotFoundError \<noteq> ValueError"
  by (auto simp: resize_gif_def Let_def)

theorem resize_gif_failures_witness:
  "resize_gif example_pillow ''missing.gif'' ''out.gif'' 360 360 example_disk
     = (Some FileNotFoundError, example_disk)
   \<and> resize_gif example_pillow ''empty.gif'' ''out.gif'' 360 360 example_disk
     = (Some ValueError, example_disk)"
proof -
  have a: "example_disk ''missing.gif'' = None" by (simp add: example_disk_def)
  have b: "example_disk ''empty.gif'' = Some (Bytes ''no frames'')
      \<and> Image_open example_pillow (Bytes ''no frames'') = Inr (example_gif\<lparr>gif_frames := []\<rparr>)
      \<and> gif_frames (example_gif\<lparr>gif_frames := []\<rparr>) = []"
    by (simp add: example_disk_def example_pillow_def)
  from a resize_gif_failures [of example_disk "''missing.gif''" example_pillow "''out.gif''" 360 360]
  have "resize_gif example_pillow ''missing.gif'' ''out.gif'' 360 360 example_disk
     = (Some FileNotFoundError, example_disk)" by blast
  moreover from b resize_gif_failures [of example_disk "''empty.gif''" example_pillow "''out.gif''" 360 360]
  have "resize_gif example_pillow ''empty.gif'' ''out.gif'' 360 360 example_disk
     = (Some ValueError, example_disk)" by blast
  ultimately show ?thesis by simp
qed

text \<open>
  Claim C10. In the animation written by \<open>resize_gif\<close> the loop count is 0 when the source has
  none, the disposal mode is 2 when the source has none, every duration is 100 when neither
  the source nor its frames give one, and the transparency entry is exactly that of the
  source: present when the source declares one, absent otherwise.
\<close>

theorem resize_gif_metadata_defaults:
  assumes "fs inp = Some content" and "Image_open P content = Inr g"
    and "resize_gif P inp out mw mh fs = (None, fs')"
  shows "\<exists>c. fs' out = Some (Saved c)
      \<and> (info_loop g = None \<longrightarrow> loop c = 0)
      \<and> (info_disposal g = None \<longrightarrow> disposal c = 2)
      \<and> (info_duration g = None \<and> (\<forall>fr \<in> set (gif_frames g). frame_duration fr = None)
           \<longrightarrow> duration c = replicate (length (gif_frames g)) 100)
      \<and> transparency c = info_transparency g"
proof -
  from resize_gif_written [OF assms(3)] assms(1,2)
  obtain ims ds where
    r: "resize_frames P (case info_duration g of None \<Rightarrow> 100 | Some d \<Rightarrow> d) (mw, mh) (gif_frames g) = Inr (ims, ds)"
    and fs': "fs' = fs(out \<mapsto> Saved
           \<lparr>first_frame = hd ims, append_images = tl ims,
            loop = (case info_loop g of None \<Rightarrow> 0 | Some l \<Rightarrow> l),
            duration = ds,
            disposal = (case info_disposal g of None \<Rightarrow> 2 | Some d \<Rightarrow> d),
            optimize = True, transparency = info_transparency g\<rparr>)"
    by auto
  have "ds = replicate (length (gif_frames g)) 100"
    if "info_duration g = None" "\<forall>fr \<in> set (gif_frames g). frame_duration fr = None"
    using resize_frames_durations [OF r] that
    by (simp add: map_replicate_const [symmetric] cong: map_cong)
  then show ?thesis unfolding fs' by auto
qed

theorem resize_gif_metadata_defaults_witness:
  "\<exists>c. snd (resize_gif example_pillow ''in.gif'' ''out.gif'' 360 360 example_disk) ''out.gif''
          = Some (Saved c)
      \<and> loop c = 0 \<and> disposal c = 2 \<and> duration c = [100, 100] \<and> transparency c = None"
proof -
  let ?fs' = "snd (resize_gif example_pillow ''in.gif'' ''out.gif'' 360 360 example_disk)"
  have c: "resize_gif example_pillow ''in.gif'' ''out.gif'' 360 360 example_disk = (None, ?fs')"
    by (simp add: example_in_result)
  from resize_gif_metadata_defaults
    [of example_disk "''in.gif''" "Bytes ''two frames''" example_pillow example_gif "''out.gif''" 360 360 ?fs',
     OF example_in_gif(1,2) c]
  show ?thesis by (simp add: example_gif_def example_frames_def numeral_2_eq_2)
qed

text \<open>
  Claim C2, at a failing input. The only frame of the input is 100 by 50 pixels and the box
  is 360 by 360; with \<^verbatim>\<open>ImageOps.contain\<close> as Pillow has it the frame handed to \<^verbatim>\<open>save\<close> is
  360 by 180 pixels, larger than the source frame.
\<close>

theorem small_frame_is_enlarged:
  "Image_open example_pillow (Bytes ''one small frame'') = Inr small_gif
   \<and> map (\<lambda>fr. img_size (frame_image fr)) (gif_frames small_gif) = [(100, 50)]
   \<and> contain_lanczos example_pillow = ImageOps_contain example_resize
   \<and> resize_gif example_pillow ''small.gif'' ''out.gif'' 360 360 example_disk =
       (None, example_disk(''out.gif'' \<mapsto> Saved
          \<lparr>first_frame = Image ''P'' (360, 180) [0, 1], append_images = [],
           loop = 0, duration = [100], disposal = 2, optimize = True, transparency = None\<rparr>))"
proof -
  have r: "py_round 180 = 180" by (simp add: py_round_def)
  have "ImageOps_contain example_resize (Image ''RGBA'' (100, 50) [0, 1]) (360, 360)
          = Inr (Image ''RGBA'' (360, 180) [0, 1])"
    by (simp add: ImageOps_contain_def example_resize_def r)
  then have "process_frame example_pillow (360, 360) small_frame = Inr (Image ''P'' (360, 180) [0, 1])"
    by (simp add: process_frame_def example_pillow_def small_frame_def)
  then show ?thesis
    by (simp add: resize_gif_def example_disk_def example_pillow_def example_gif_def small_gif_def
        small_frame_def)
qed

section \<open>Properties of \<open>get_svg_content_bounds\<close>\<close>

lemma collect_filter:
  "(\<And>x. x \<in> set xs \<Longrightarrow> \<not> P x \<Longrightarrow> f x = Inr []) \<Longrightarrow> collect f xs = collect f (filter P xs)"
  by (induction xs) (auto split: sum.splits)

lemma path_points_not_shape: "\<not> is_shape e \<Longrightarrow> path_points L e = Inr []"
  by (simp add: is_shape_def path_points_def)

lemma shape_points_not_shape: "\<not> is_shape e \<Longrightarrow> shape_points L e = Inr []"
  by (simp add: is_shape_def shape_points_def Let_def)

lemma all_points_shape_elements:
  "all_points L doc =
     (case collect (path_points L) (shape_elements doc) of Inl e \<Rightarrow> Inl e
      | Inr ps \<Rightarrow>
          (case collect (shape_points L) (shape_elements doc) of Inl e \<Rightarrow> Inl e
           | Inr qs \<Rightarrow> Inr (ps @ qs)))"
  unfolding all_points_def shape_elements_def
  using collect_filter [of "iter doc" is_shape "path_points L"]
        collect_filter [of "iter doc" is_shape "shape_points L"]
  by (simp add: path_points_not_shape shape_points_not_shape cong: sum.case_cong)

lemma endswith_local_tag: "endswith t (local_tag t)"
proof (cases "CHR ''}'' \<in> set t")
  case False
  then show ?thesis by (simp add: endswith_def local_tag_def)
next
  case True
  let ?p = "\<lambda>c. c \<noteq> CHR ''}''"
  have "t = rev (dropWhile ?p (rev t)) @ rev (takeWhile ?p (rev t))"
    by (metis rev_append rev_rev_ident takeWhile_dropWhile_id)
  then have "drop (length t - length (rev (takeWhile ?p (rev t)))) t = rev (takeWhile ?p (rev t))"
    by (metis append_eq_conv_conj length_append add_diff_cancel_right')
  moreover have "length (takeWhile ?p (rev t)) \<le> length t"
    by (metis length_rev length_takeWhile_le)
  ultimately show ?thesis using True by (simp add: endswith_def local_tag_def)
qed

lemma endswith_chain:
  assumes "endswith t a" and "endswith t b" and "length a \<le> length b"
  shows "endswith b a"
proof -
  from assms(2) have t: "t = take (length t - length b) t @ b" and lb: "length b \<le> length t"
    by (auto simp: endswith_def) (metis append_take_drop_id)
  have "drop (length t - length a) t = drop (length b - length a) b"
    using assms(3) lb by (subst t) (simp add: min_def)
  with assms(1,3) show ?thesis by (simp add: endswith_def)
qed

lemma local_tag_not_path:
  "4 \<le> length (local_tag t) \<Longrightarrow> \<not> endswith (local_tag t) ''path'' \<Longrightarrow> \<not> endswith t ''path''"
  using endswith_chain [OF _ endswith_local_tag, of t "''path''"] by auto

lemma foldl_min: "foldl (\<lambda>m v. if v < m then v else m) (x::real) xs = Min (insert x (set xs))"
proof (induction xs arbitrary: x)
  case Nil
  then show ?case by simp
next
  case (Cons a xs)
  have "Min (insert (if a < x then a else x) (set xs)) = Min (insert x (insert a (set xs)))"
    by (cases "set xs = {}") (auto simp: min_def)
  with Cons show ?case by simp
qed

lemma foldl_max: "foldl (\<lambda>m v. if v > m then v else m) (x::real) xs = Max (insert x (set xs))"
proof (induction xs arbitrary: x)
  case Nil
  then show ?case by simp
next
  case (Cons a xs)
  have "Max (insert (if a > x then a else x) (set xs)) = Max (insert x (insert a (set xs)))"
    by (cases "set xs = {}") (auto simp: max_def)
  with Cons show ?case by simp
qed

lemma py_min_Min: "xs \<noteq> [] \<Longrightarrow> py_min xs = Inr (Min (set xs))"
  by (cases xs) (simp_all add: foldl_min)

lemma py_max_Max: "xs \<noteq> [] \<Longrightarrow> py_max xs = Inr (Max (set xs))"
  by (cases xs) (simp_all add: foldl_max)

lemma bounding_box_Min_Max:
  "pts \<noteq> [] \<Longrightarrow> bounding_box pts =
     Inr (PyFloat (Min (fst ` set pts)), PyFloat (Min (snd ` set pts)),
          PyFloat (Max (fst ` set pts)), PyFloat (Max (snd ` set pts)))"
  by (simp add: bounding_box_def py_min_Min py_max_Max)

lemma get_svg_content_bounds_points:
  "ET_fromstring L svg = Some doc \<Longrightarrow> all_points L doc = Inr pts \<Longrightarrow> pts \<noteq> [] \<Longrightarrow>
   get_svg_content_bounds L svg =
     Inr (PyFloat (Min (fst ` set pts)), PyFloat (Min (snd ` set pts)),
          PyFloat (Max (fst ` set pts)), PyFloat (Max (snd ` set pts)))"
  by (simp add: get_svg_content_bounds_def bounding_box_Min_Max)

lemma circle_all_points:
  assumes "shape_elements doc = [c]" and "local_tag (tag c) = ''circle''"
    and "attr_float L c ''cx'' = Some cx" and "attr_float L c ''cy'' = Some cy"
    and "attr_float L c ''r'' = Some r"
  shows "all_points L doc = Inr [(cx - r, cy - r), (cx + r, cy + r)]"
proof -
  have np: "\<not> endswith (tag c) ''path''"
    using local_tag_not_path [of "tag c"] assms(2) by (simp add: endswith_def)
  show ?thesis using assms np
    by (simp add: all_points_shape_elements path_points_def shape_points_def attr_floats3_def)
qed

text \<open>
  Claim C5. For a document whose only shape element is a circle with centre \<open>(cx, cy)\<close> and
  radius \<open>r \<ge> 0\<close> (an absent attribute counts as 0), \<open>get_svg_content_bounds\<close> returns
  \<open>(cx - r, cy - r, cx + r, cy + r)\<close>, four floats.
\<close>

theorem circle_bounds:
  assumes "ET_fromstring L svg = Some doc"
    and "shape_elements doc = [c]" and "local_tag (tag c) = ''circle''"
    and "attr_float L c ''cx'' = Some cx" and "attr_float L c ''cy'' = Some cy"
    and "attr_float L c ''r'' = Some r" and "0 \<le> r"
  shows "get_svg_content_bounds L svg =
           Inr (PyFloat (cx - r), PyFloat (cy - r), PyFloat (cx + r), PyFloat (cy + r))"
proof -
  note pts = circle_all_points [OF assms(2-6)]
  from get_svg_content_bounds_points [OF assms(1) pts] assms(7)
  show ?thesis by (simp add: min_def max_def)
qed

theorem circle_bounds_witness:
  "get_svg_content_bounds example_library circle_svg =
     Inr (PyFloat 10, PyFloat 10, PyFloat 90, PyFloat 90)"
proof -
  have a: "ET_fromstring example_library circle_svg = Some circle_doc"
    by (simp add: example_library_def)
  have b: "shape_elements circle_doc = [circle_elem]"
    by (simp add: shape_elements_def circle_doc_def circle_elem_def is_shape_def endswith_def local_tag_def)
  have c: "local_tag (tag circle_elem) = ''circle''"
    by (simp add: circle_elem_def local_tag_def)
  have d: "attr_float example_library circle_elem ''cx'' = Some 50"
    "attr_float example_library circle_elem ''cy'' = Some 50"
    "attr_float example_library circle_elem ''r'' = Some 40"
    by (simp_all add: attr_float_def get_def circle_elem_def example_library_def example_float_def)
  from circle_bounds [of example_library circle_svg circle_doc circle_elem 50 50 40, OF a b c d]
  show ?thesis by simp
qed

lemma collect_rects:
  assumes "\<forall>e\<in>set rs. local_tag (tag e) = ''rect''"
    and "map (\<lambda>e. attr_floats4 L e ''x'' ''y'' ''width'' ''height'') rs = map Inr gs"
  shows "collect (shape_points L) rs = Inr (concat (map (\<lambda>(x, y, w, h). [(x, y), (x + w, y + h)]) gs))"
  using assms
proof (induction rs arbitrary: gs)
  case Nil
  then show ?case by simp
next
  case (Cons e rs)
  then obtain g gs' where gs: "gs = g # gs'" by (cases gs) auto
  obtain x y w h where g: "g = (x, y, w, h)" by (cases g) auto
  from Cons.prems gs g have e: "attr_floats4 L e ''x'' ''y'' ''width'' ''height'' = Inr (x, y, w, h)"
    and rest: "map (\<lambda>e. attr_floats4 L e ''x'' ''y'' ''width'' ''height'') rs = map Inr gs'"
    and tags: "\<forall>e\<in>set rs. local_tag (tag e) = ''rect''" and t: "local_tag (tag e) = ''rect''"
    by auto
  from Cons.IH [OF tags rest] e t show ?case
    by (simp add: gs g shape_points_def)
qed

lemma collect_no_paths:
  "\<forall>e\<in>set rs. \<not> endswith (tag e) ''path'' \<Longrightarrow> collect (path_points L) rs = Inr []"
  by (induction rs) (auto simp: path_points_def)

lemma Min_of_lower_union:
  fixes A B :: "real set"
  assumes "finite A" "finite B" "A \<noteq> {}" "\<forall>b\<in>B. \<exists>a\<in>A. a \<le> b"
  shows "Min (A \<union> B) = Min A"
proof (rule Min_eqI)
  show "finite (A \<union> B)" using assms by simp
  show "Min A \<in> A \<union> B" using assms by simp
  fix y assume "y \<in> A \<union> B"
  then show "Min A \<le> y"
  proof
    assume "y \<in> A" then show ?thesis using assms(1) by simp
  next
    assume "y \<in> B"
    then obtain a where "a \<in> A" "a \<le> y" using assms(4) by blast
    then show ?thesis using assms(1) by (meson Min_le order_trans)
  qed
qed

lemma Max_of_upper_union:
  fixes A B :: "real set"
  assumes "finite A" "finite B" "A \<noteq> {}" "\<forall>b\<in>B. \<exists>a\<in>A. b \<le> a"
  shows "Max (B \<union> A) = Max A"
proof (rule Max_eqI)
  show "finite (B \<union> A)" using assms by simp
  show "Max A \<in> B \<union> A" using assms by simp
  fix y assume "y \<in> B \<union> A"
  then show "y \<le> Max A"
  proof
    assume "y \<in> A" then show ?thesis using assms(1) by simp
  next
    assume "y \<in> B"
    then obtain a where "a \<in> A" "y \<le> a" using assms(4) by blast
    then show ?thesis using assms(1) by (meson Max_ge order_trans)
  qed
qed

text \<open>
  Claim C6. For a document whose shape elements are rects only, at least one, with
  non-negative widths and heights, \<open>get_svg_content_bounds\<close> returns the least \<open>x\<close>, the least
  \<open>y\<close>, the greatest \<open>x + width\<close> and the greatest \<open>y + height\<close>; this box contains the box of
  every single rect.
\<close>

theorem rect_bounds:
  assumes "ET_fromstring L svg = Some doc"
    and "shape_elements doc = rs" and "rs \<noteq> []"
    and "\<forall>e\<in>set rs. local_tag (tag e) = ''rect''"
    and "map (\<lambda>e. attr_floats4 L e ''x'' ''y'' ''width'' ''height'') rs = map Inr gs"
    and "\<forall>(x, y, w, h)\<in>set gs. 0 \<le> w \<and> 0 \<le> h"
  shows "get_svg_content_bounds L svg =
           Inr (PyFloat (Min ((\<lambda>(x, y, w, h). x) ` set gs)),
                PyFloat (Min ((\<lambda>(x, y, w, h). y) ` set gs)),
                PyFloat (Max ((\<lambda>(x, y, w, h). x + w) ` set gs)),
                PyFloat (Max ((\<lambda>(x, y, w, h). y + h) ` set gs)))
         \<and> (\<forall>(x, y, w, h)\<in>set gs.
               Min ((\<lambda>(x, y, w, h). x) ` set gs) \<le> x \<and> Min ((\<lambda>(x, y, w, h). y) ` set gs) \<le> y
             \<and> x + w \<le> Max ((\<lambda>(x, y, w, h). x + w) ` set gs)
             \<and> y + h \<le> Max ((\<lambda>(x, y, w, h). y + h) ` set gs))"
proof -
  let ?X = "(\<lambda>(x, y, w, h). x) ` set gs" and ?Y = "(\<lambda>(x, y, w, h). y) ` set gs"
  let ?XW = "(\<lambda>(x, y, w, h). x + w) ` set gs" and ?YH = "(\<lambda>(x, y, w, h). y + h) ` set gs"
  let ?pts = "concat (map (\<lambda>(x, y, w, h). [(x, y), (x + w, y + h)]) gs)"
  from assms(3,5) have gs: "gs \<noteq> []" by (cases gs) auto
  then have pts: "?pts \<noteq> []" by (cases gs) auto
  have np: "\<forall>e\<in>set rs. \<not> endswith (tag e) ''path''"
    using local_tag_not_path assms(4) by (simp add: endswith_def)
  have ap: "all_points L doc = Inr ?pts"
    using collect_rects [OF assms(4,5)] collect_no_paths [OF np] assms(2)
    by (simp add: all_points_shape_elements)
  have fx: "fst ` set ?pts = ?X \<union> ?XW" and fy: "snd ` set ?pts = ?Y \<union> ?YH"
    by (auto simp: image_iff split: prod.splits) force+
  have ne: "?X \<noteq> {}" "?Y \<noteq> {}" "?XW \<noteq> {}" "?YH \<noteq> {}" using gs by auto
  have fin: "finite ?X" "finite ?Y" "finite ?XW" "finite ?YH" by simp_all
  have lx: "\<forall>b\<in>?XW. \<exists>a\<in>?X. a \<le> b"
  proof
    fix b assume "b \<in> ?XW"
    then obtain x y w h where g: "(x, y, w, h) \<in> set gs" and b: "b = x + w" by auto
    from assms(6) g have "0 \<le> w" by fastforce
    moreover from g have "x \<in> ?X" by force
    ultimately show "\<exists>a\<in>?X. a \<le> b" using b by (intro bexI [of _ x]) auto
  qed
  have ly: "\<forall>b\<in>?YH. \<exists>a\<in>?Y. a \<le> b"
  proof
    fix b assume "b \<in> ?YH"
    then obtain x y w h where g: "(x, y, w, h) \<in> set gs" and b: "b = y + h" by auto
    from assms(6) g have "0 \<le> h" by fastforce
    moreover from g have "y \<in> ?Y" by force
    ultimately show "\<exists>a\<in>?Y. a \<le> b" using b by (intro bexI [of _ y]) auto
  qed
  have ux: "\<forall>b\<in>?X. \<exists>a\<in>?XW. b \<le> a"
  proof
    fix b assume "b \<in> ?X"
    then obtain y w h where g: "(b, y, w, h) \<in> set gs" by auto
    from assms(6) g have "0 \<le> w" by fastforce
    moreover from g have "b + w \<in> ?XW" by force
    ultimately show "\<exists>a\<in>?XW. b \<le> a" by (intro bexI [of _ "b + w"]) auto
  qed
  have uy: "\<forall>b\<in>?Y. \<exists>a\<in>?YH. b \<le> a"
  proof
    fix b assume "b \<in> ?Y"
    then obtain x w h where g: "(x, b, w, h) \<in> set gs" by auto
    from assms(6) g have "0 \<le> h" by fastforce
    moreover from g have "b + h \<in> ?YH" by force
    ultimately show "\<exists>a\<in>?YH. b \<le> a" by (intro bexI [of _ "b + h"]) auto
  qed
  have "Min (?X \<union> ?XW) = Min ?X"
    by (rule Min_of_lower_union [OF fin(1) fin(3) ne(1) lx])
  moreover have "Min (?Y \<union> ?YH) = Min ?Y"
    by (rule Min_of_lower_union [OF fin(2) fin(4) ne(2) ly])
  moreover have "Max (?X \<union> ?XW) = Max ?XW"
    by (rule Max_of_upper_union [OF fin(3) fin(1) ne(3) ux])
  moreover have "Max (?Y \<union> ?YH) = Max ?YH"
    by (rule Max_of_upper_union [OF fin(4) fin(2) ne(4) uy])
  ultimately have "get_svg_content_bounds L svg =
      Inr (PyFloat (Min ?X), PyFloat (Min ?Y), PyFloat (Max ?XW), PyFloat (Max ?YH))"
    using get_svg_content_bounds_points [OF assms(1) ap pts] by (simp only: fx fy)
  moreover have "\<forall>(x, y, w, h)\<in>set gs. Min ?X \<le> x \<and> Min ?Y \<le> y \<and> x + w \<le> Max ?XW \<and> y + h \<le> Max ?YH"
  proof (clarify, intro conjI)
    fix x y w h assume g: "(x, y, w, h) \<in> set gs"
    from g have "x \<in> ?X" by force
    then show "Min ?X \<le> x" using fin(1) by simp
    from g have "y \<in> ?Y" by force
    then show "Min ?Y \<le> y" using fin(2) by simp
    from g have "x + w \<in> ?XW" by force
    then show "x + w \<le> Max ?XW" using fin(3) by simp
    from g have "y + h \<in> ?YH" by force
    then show "y + h \<le> Max ?YH" using fin(4) by simp
  qed
  ultimately show ?thesis by blast
qed

theorem rect_bounds_witness:
  "get_svg_content_bounds example_library rects_svg =
     Inr (PyFloat 0, PyFloat 20, PyFloat 40, PyFloat 60)"
proof -
  let ?gs = "[(10, 20, 30, 40), (0, 50, 20, 10)] :: (real \<times> real \<times> real \<times> real) list"
  have a: "ET_fromstring example_library rects_svg = Some rects_doc"
    by (simp add: example_library_def rects_svg_def circle_svg_def)
  have b: "shape_elements rects_doc = rect_elems"
    by (simp add: shape_elements_def rects_doc_def rect_elems_def is_shape_def endswith_def local_tag_def)
  have c: "rect_elems \<noteq> []" by (simp add: rect_elems_def)
  have d: "\<forall>e\<in>set rect_elems. local_tag (tag e) = ''rect''"
    by (simp add: rect_elems_def local_tag_def)
  have e: "map (\<lambda>e. attr_floats4 example_library e ''x'' ''y'' ''width'' ''height'') rect_elems = map Inr ?gs"
    by (simp add: rect_elems_def attr_floats4_def attr_float_def get_def example_library_def example_float_def)
  have f: "\<forall>(x, y, w, h)\<in>set ?gs. 0 \<le> w \<and> 0 \<le> h" by simp
  from rect_bounds [of example_library rects_svg rects_doc rect_elems ?gs, OF a b c d e f]
  show ?thesis by simp
qed

section \<open>Properties of \<open>svg_to_png\<close>\<close>

lemma str_int_sizes: "str_int 32 = ''32''" "str_int 128 = ''128''" "str_int 256 = ''256''"
  by code_simp+

lemma str_int_examples:
  "str_int 0 = ''0''" "str_int 10 = ''10''" "str_int 40 = ''40''" "str_int 80 = ''80''"
  "str_int 100 = ''100''" "str_int (- 5) = ''-5''"
  by code_simp+

lemma example_fmt_values:
  "example_fmt 0 = ''0.0''" "example_fmt 10 = ''10.0''" "example_fmt 40 = ''40.0''"
  "example_fmt 80 = ''80.0''" "example_fmt (- 5) = ''-5.0''"
  by (simp_all add: example_fmt_def str_int_examples)

lemma split_ws_example: "split_ws ''10 20 30 40'' = [''10'', ''20'', ''30'', ''40'']"
  by code_simp

lemma map_of_update: "map_of (update k v ps) k' = (if k' = k then Some v else map_of ps k')"
  by (induction ps) auto

lemma get_set_attr: "get (set_attr e k v) k' = (if k' = k then Some v else get e k')"
  by (simp add: get_def set_attr_def map_of_update)

lemma value_of_num_sub: "value_of (num_sub a b) = value_of a - value_of b"
  by (cases a; cases b) simp_all

lemma value_of_py_max2: "value_of (py_max2 a b) = max (value_of a) (value_of b)"
  by (simp add: py_max2_def max_def)

lemma bounds_parsed:
  "get_svg_content_bounds L svg = Inr b \<Longrightarrow> \<exists>doc. ET_fromstring L svg = Some doc"
  by (auto simp: get_svg_content_bounds_def split: option.splits)

text \<open>The three shapes of a result of \<open>get_svg_content_bounds\<close>.\<close>

lemma bounds_forms:
  assumes "get_svg_content_bounds L svg = Inr b"
  shows "b = (PyInt 0, PyInt 0, PyInt 100, PyInt 100)
       \<or> (\<exists>w h. b = (PyInt 0, PyInt 0, PyFloat w, PyFloat h))
       \<or> (\<exists>x0 y0 x1 y1. b = (PyFloat x0, PyFloat y0, PyFloat x1, PyFloat y1))"
  using assms
  by (auto simp: get_svg_content_bounds_def bounding_box_def
      split: option.splits sum.splits if_splits prod.splits)

lemma side_text:
  assumes "b = (PyInt 0, PyInt 0, PyInt 100, PyInt 100)
       \<or> (\<exists>w h. b = (PyInt 0, PyInt 0, PyFloat w, PyFloat h))
       \<or> (\<exists>x0 y0 x1 y1. b = (PyFloat x0, PyFloat y0, PyFloat x1, PyFloat y1))"
    and "b = (min_x, min_y, max_x, max_y)"
  shows "fmt_number L (py_max2 (num_sub max_x min_x) (num_sub max_y min_y)) =
           (if b = (PyInt 0, PyInt 0, PyInt 100, PyInt 100) then ''100''
            else fmt_float L (max (value_of max_x - value_of min_x) (value_of max_y - value_of min_y)))"
  using assms by (auto simp: fmt_number_def py_max2_def str_int_examples max_def)

lemma cropped_document_eq:
  assumes "get_svg_content_bounds L svg = Inr (min_x, min_y, max_x, max_y)"
    and "ET_fromstring L svg = Some doc"
    and "s = max (value_of max_x - value_of min_x) (value_of max_y - value_of min_y)"
    and "side = (if (min_x, min_y, max_x, max_y) = (PyInt 0, PyInt 0, PyInt 100, PyInt 100)
                 then ''100'' else fmt_float L s)"
  shows "cropped_document L svg width height =
     Inr (set_attr (set_attr (set_attr doc ''viewBox''
            (fmt_float L ((value_of min_x + value_of max_x) / 2 - s / 2) @ '' '' @
             fmt_float L ((value_of min_y + value_of max_y) / 2 - s / 2) @ '' '' @
             side @ '' '' @ side))
          ''width'' (str_int width)) ''height'' (str_int height))"
proof -
  let ?sq = "py_max2 (num_sub max_x min_x) (num_sub max_y min_y)"
  have e: "value_of min_x + value_of (num_sub max_x min_x) / 2 = (value_of min_x + value_of max_x) / 2"
    "value_of min_y + value_of (num_sub max_y min_y) / 2 = (value_of min_y + value_of max_y) / 2"
    by (simp_all add: value_of_num_sub field_simps)
  have v: "value_of ?sq = s" by (simp add: value_of_py_max2 value_of_num_sub assms(3))
  have t: "fmt_number L ?sq = side"
    using side_text [OF bounds_forms [OF assms(1)] refl] by (simp add: assms(3,4))
  have "cropped_document L svg width height =
     Inr (set_attr (set_attr (set_attr doc ''viewBox''
            (viewbox_text L (value_of min_x + value_of (num_sub max_x min_x) / 2 - value_of ?sq / 2)
               (value_of min_y + value_of (num_sub max_y min_y) / 2 - value_of ?sq / 2) ?sq))
          ''width'' (str_int width)) ''height'' (str_int height))"
    unfolding cropped_document_def Let_def assms(1,2)
    by (simp only: sum.case prod.case option.case)
  then show ?thesis by (simp only: e v viewbox_text_def t)
qed

lemma svg_to_png_eq:
  "cropped_document L svg width height = Inr doc' \<Longrightarrow>
   svg_to_png L svg_path out width height svg w =
     (case svg2png L (ET_tostring L doc') width height of Inl e \<Rightarrow> (Some e, w)
      | Inr png \<Rightarrow> (None, print (MsgGenerated out width height) (w\<lparr>files := (files w)(out \<mapsto> png)\<rparr>)))"
  by (simp add: svg_to_png_def Let_def)

text \<open>
  Claim C7. Whatever bounding box \<open>(min_x, min_y, max_x, max_y)\<close> the document has, the
  \<^verbatim>\<open>viewBox\<close> that \<open>svg_to_png\<close> writes into the document handed to the rasteriser is the
  text \<^verbatim>\<open>x y s s\<close> of the square window whose side \<open>s\<close> is the larger of \<open>max_x - min_x\<close> and
  \<open>max_y - min_y\<close> and whose origin on each axis is the midpoint of the box minus half the
  side. The origins are written as floats; the side is written as a float, except for the
  default box of integers, where it is the integer \<^verbatim>\<open>100\<close>.
\<close>

theorem crop_window_centered_square:
  assumes "get_svg_content_bounds L svg = Inr (min_x, min_y, max_x, max_y)"
    and "s = max (value_of max_x - value_of min_x) (value_of max_y - value_of min_y)"
    and "side = (if (min_x, min_y, max_x, max_y) = (PyInt 0, PyInt 0, PyInt 100, PyInt 100)
                 then ''100'' else fmt_float L s)"
  shows "\<exists>doc'. cropped_document L svg width height = Inr doc'
      \<and> get doc' ''viewBox'' =
          Some (fmt_float L ((value_of min_x + value_of max_x) / 2 - s / 2) @ '' '' @
                fmt_float L ((value_of min_y + value_of max_y) / 2 - s / 2) @ '' '' @
                side @ '' '' @ side)
      \<and> svg_to_png L svg_path out width height svg w =
          (case svg2png L (ET_tostring L doc') width height of Inl e \<Rightarrow> (Some e, w)
           | Inr png \<Rightarrow>
               (None, print (MsgGenerated out width height) (w\<lparr>files := (files w)(out \<mapsto> png)\<rparr>)))"
proof -
  from bounds_parsed [OF assms(1)] obtain doc where doc: "ET_fromstring L svg = Some doc" ..
  note c = cropped_document_eq [OF assms(1) doc assms(2,3), of width height]
  show ?thesis
    by (intro exI conjI, rule c, simp add: get_set_attr, rule svg_to_png_eq [OF c])
qed

text \<open>
  Claim C1. For a document whose only shape element is the circle with \<^verbatim>\<open>cx="50"\<close>,
  \<^verbatim>\<open>cy="50"\<close>, \<^verbatim>\<open>r="40"\<close>, rendering the size 128 sets the \<^verbatim>\<open>viewBox\<close> to the window from
  \<open>(10, 10)\<close> to \<open>(90, 90)\<close>, of side 80, asks the rasteriser for 128 by 128 pixels and
  writes what it returns to the output path.
\<close>

theorem circle_example_end_to_end:
  assumes "ET_fromstring L svg = Some doc"
    and "shape_elements doc = [c]" and "local_tag (tag c) = ''circle''"
    and "get c ''cx'' = Some ''50''" and "get c ''cy'' = Some ''50''" and "get c ''r'' = Some ''40''"
    and "py_float L ''50'' = Some 50" and "py_float L ''40'' = Some 40"
    and "doc' = set_attr (set_attr (set_attr doc ''viewBox''
                  (fmt_float L 10 @ '' '' @ fmt_float L 10 @ '' '' @ fmt_float L 80 @ '' '' @ fmt_float L 80))
                   ''width'' ''128'') ''height'' ''128''"
    and "svg2png L (ET_tostring L doc') 128 128 = Inr png"
  shows "calculate_render_size sw sh 128 = (128, 128)
      \<and> cropped_document L svg 128 128 = Inr doc'
      \<and> (\<exists>x y s. get doc' ''viewBox'' =
                     Some (fmt_float L x @ '' '' @ fmt_float L y @ '' '' @ fmt_float L s @ '' '' @ fmt_float L s)
             \<and> (x, y) = (10, 10) \<and> (x + s, y + s) = (90, 90))
      \<and> svg_to_png L svg_path out 128 128 svg w =
          (None, print (MsgGenerated out 128 128) (w\<lparr>files := (files w)(out \<mapsto> png)\<rparr>))"
proof -
  let ?vb = "fmt_float L 10 @ '' '' @ fmt_float L 10 @ '' '' @ fmt_float L 80 @ '' '' @ fmt_float L 80"
  have "all_points L doc = Inr [(50 - 40, 50 - 40), (50 + 40, 50 + 40)]"
    by (rule circle_all_points [OF assms(2,3)]) (simp_all add: attr_float_def assms)
  from get_svg_content_bounds_points [OF assms(1) this]
  have b: "get_svg_content_bounds L svg = Inr (PyFloat 10, PyFloat 10, PyFloat 90, PyFloat 90)"
    by simp
  have c: "cropped_document L svg 128 128 = Inr doc'"
    using cropped_document_eq [OF b assms(1) refl refl, of 128 128]
    by (simp add: assms(9) str_int_sizes)
  have v: "get doc' ''viewBox'' = Some ?vb"
    by (simp add: assms(9) get_set_attr)
  have "\<exists>x y s. get doc' ''viewBox'' =
                     Some (fmt_float L x @ '' '' @ fmt_float L y @ '' '' @ fmt_float L s @ '' '' @ fmt_float L s)
             \<and> (x, y) = (10, 10) \<and> (x + s, y + s) = (90, 90)"
    by (rule exI [of _ 10], rule exI [of _ 10], rule exI [of _ 80]) (simp add: v)
  moreover have "svg_to_png L svg_path out 128 128 svg w =
          (None, print (MsgGenerated out 128 128) (w\<lparr>files := (files w)(out \<mapsto> png)\<rparr>))"
    using svg_to_png_eq [OF c] assms(10) by simp
  ultimately show ?thesis using c by (simp add: calculate_render_size_def)
qed

lemma example_circle_parse: "ET_fromstring example_library circle_svg = Some circle_doc"
  by (simp add: example_library_def)

lemma example_circle_shapes:
  "shape_elements circle_doc = [circle_elem]" "local_tag (tag circle_elem) = ''circle''"
  by (simp_all add: shape_elements_def circle_doc_def circle_elem_def is_shape_def endswith_def
      local_tag_def)

lemma example_circle_attrs:
  "get circle_elem ''cx'' = Some ''50''" "get circle_elem ''cy'' = Some ''50''"
  "get circle_elem ''r'' = Some ''40''"
  "py_float example_library ''50'' = Some 50" "py_float example_library ''40'' = Some 40"
  by (simp_all add: get_def circle_elem_def example_library_def example_float_def)

lemma example_viewbox_parse: "ET_fromstring example_library viewbox_svg = Some viewbox_doc"
  by (simp add: example_library_def viewbox_svg_def circle_svg_def rects_svg_def)

lemma example_viewbox_points: "all_points example_library viewbox_doc = Inr []"
  by (simp add: all_points_def viewbox_doc_def path_points_def shape_points_def endswith_def
      local_tag_def)

lemma example_viewbox_bounds:
  "get_svg_content_bounds example_library viewbox_svg = Inr (PyInt 0, PyInt 0, PyFloat 30, PyFloat 40)"
proof -
  have g: "get viewbox_doc ''viewBox'' = Some ''10 20 30 40''"
    by (simp add: get_def viewbox_doc_def)
  have v: "viewbox_size example_library ''10 20 30 40'' = Inr (30, 40)"
    by (simp add: viewbox_size_def split_ws_example example_library_def example_float_def)
  show ?thesis using example_viewbox_parse example_viewbox_points g v
    by (simp add: get_svg_content_bounds_def)
qed

lemma example_empty_bounds:
  "get_svg_content_bounds example_library empty_svg = Inr (PyInt 0, PyInt 0, PyInt 100, PyInt 100)"
proof -
  have p: "ET_fromstring example_library empty_svg = Some empty_doc"
    by (simp add: example_library_def empty_svg_def viewbox_svg_def circle_svg_def rects_svg_def)
  have a: "all_points example_library empty_doc = Inr []"
    by (simp add: all_points_def empty_doc_def path_points_def shape_points_def endswith_def
        local_tag_def)
  show ?thesis using p a by (simp add: get_svg_content_bounds_def get_def empty_doc_def)
qed

text \<open>
  Claim C4, at a failing input. The document \<^verbatim>\<open><svg viewBox="10 20 30 40"/>\<close> has no shape
  that yields a point and declares the box from \<open>(10, 20)\<close> to \<open>(40, 60)\<close>;
  \<open>get_svg_content_bounds\<close> returns \<open>(0, 0, 30, 40)\<close>.
\<close>

theorem viewbox_fallback_drops_origin:
  "all_points example_library viewbox_doc = Inr []
   \<and> get viewbox_doc ''viewBox'' = Some ''10 20 30 40''
   \<and> get_svg_content_bounds example_library viewbox_svg = Inr (PyInt 0, PyInt 0, PyFloat 30, PyFloat 40)"
  using example_viewbox_points example_viewbox_bounds by (simp add: get_def viewbox_doc_def)

theorem crop_window_centered_square_witness:
  "(\<exists>doc'. cropped_document example_library viewbox_svg 32 32 = Inr doc'
      \<and> get doc' ''viewBox'' = Some ''-5.0 0.0 40.0 40.0'')
   \<and> (\<exists>doc'. cropped_document example_library empty_svg 32 32 = Inr doc'
      \<and> get doc' ''viewBox'' = Some ''0.0 0.0 100 100'')"
proof -
  have f: "fmt_float example_library = example_fmt" by (simp add: example_library_def)
  from crop_window_centered_square
    [of example_library viewbox_svg "PyInt 0" "PyInt 0" "PyFloat 30" "PyFloat 40" 40 "''40.0''" 32 32
        "''in''" "''out''" example_world,
     OF example_viewbox_bounds]
  have "\<exists>doc'. cropped_document example_library viewbox_svg 32 32 = Inr doc'
      \<and> get doc' ''viewBox'' = Some ''-5.0 0.0 40.0 40.0''"
    by (auto simp: f example_fmt_values)
  moreover from crop_window_centered_square
    [of example_library empty_svg "PyInt 0" "PyInt 0" "PyInt 100" "PyInt 100" 100 "''100''" 32 32
        "''in''" "''out''" example_world,
     OF example_empty_bounds]
  have "\<exists>doc'. cropped_document example_library empty_svg 32 32 = Inr doc'
      \<and> get doc' ''viewBox'' = Some ''0.0 0.0 100 100''"
    by (auto simp: f example_fmt_values)
  ultimately show ?thesis by simp
qed

theorem circle_example_end_to_end_witness:
  "cropped_document example_library circle_svg 128 128 =
     Inr (Element ''svg'' [(''viewBox'', ''10.0 10.0 80.0 80.0''), (''width'', ''128''), (''height'', ''128'')]
            [circle_elem])
   \<and> files (snd (svg_to_png example_library ''/site/favicon.svg'' ''/site/favicon-128x128.png''
                   128 128 circle_svg example_world)) ''/site/favicon-128x128.png'' = Some ''PNG''"
proof -
  let ?doc' = "set_attr (set_attr (set_attr circle_doc ''viewBox''
                  (fmt_float example_library 10 @ '' '' @ fmt_float example_library 10 @ '' '' @
                   fmt_float example_library 80 @ '' '' @ fmt_float example_library 80))
                   ''width'' ''128'') ''height'' ''128''"
  have r: "svg2png example_library (ET_tostring example_library ?doc') 128 128 = Inr ''PNG''"
    by (simp add: example_library_def)
  have f: "fmt_float example_library = example_fmt" by (simp add: example_library_def)
  have d: "?doc' = Element ''svg'' [(''viewBox'', ''10.0 10.0 80.0 80.0''), (''width'', ''128''), (''height'', ''128'')]
            [circle_elem]"
    by (simp add: set_attr_def circle_doc_def f example_fmt_values)
  from circle_example_end_to_end
    [of example_library circle_svg circle_doc circle_elem ?doc' "''PNG''" "PyFloat 80" "PyFloat 80"
        "''/site/favicon.svg''" "''/site/favicon-128x128.png''" example_world,
     OF example_circle_parse example_circle_shapes example_circle_attrs refl r]
  show ?thesis unfolding d by (simp add: print_def)
qed

section \<open>Properties of \<open>main\<close>\<close>

lemma files_print: "files (print m w) = files w"
  by (simp add: print_def)

lemma stdout_print: "stdout (print m w) = stdout w @ [m]"
  by (simp add: print_def)

lemma render_size_eq:
  "render_size L dir svg sw sh t w =
     (case png_of L svg t of Inl e \<Rightarrow> (Some e, print (MsgRendering t t t) w)
      | Inr png \<Rightarrow>
          (None, print (MsgGenerated (png_path dir t) t t)
                   ((print (MsgRendering t t t) w)\<lparr>files := (files w)(png_path dir t \<mapsto> png)\<rparr>)))"
  by (simp add: render_size_def calculate_render_size_def svg_to_png_def png_of_def Let_def
      files_print split: sum.splits)

lemma render_loop_untouched:
  "render_loop L dir svg sw sh sizes w = (r, w') \<Longrightarrow> \<forall>s\<in>set sizes. p \<noteq> png_path dir s \<Longrightarrow>
   files w' p = files w p"
proof (induction sizes arbitrary: w)
  case Nil
  then show ?case by simp
next
  case (Cons t sizes)
  show ?case
  proof (cases "png_of L svg t")
    case (Inl e)
    with Cons.prems show ?thesis by (auto simp: render_size_eq files_print)
  next
    case (Inr png)
    let ?w1 = "print (MsgGenerated (png_path dir t) t t)
                   ((print (MsgRendering t t t) w)\<lparr>files := (files w)(png_path dir t \<mapsto> png)\<rparr>)"
    from Cons.prems Inr have "render_loop L dir svg sw sh sizes ?w1 = (r, w')"
      by (simp add: render_size_eq)
    from Cons.IH [OF this] Cons.prems(2) have "files w' p = files ?w1 p" by simp
    with Cons.prems(2) show ?thesis by (simp add: files_print)
  qed
qed

lemma render_loop_generated:
  "\<forall>s\<in>set sizes. \<exists>png. png_of L svg s = Inr png \<Longrightarrow> distinct (map (png_path dir) sizes) \<Longrightarrow>
   \<exists>w'. render_loop L dir svg sw sh sizes w = (None, w')
      \<and> (\<forall>s\<in>set sizes. \<exists>png. png_of L svg s = Inr png \<and> files w' (png_path dir s) = Some png)"
proof (induction sizes arbitrary: w)
  case Nil
  then show ?case by simp
next
  case (Cons t sizes)
  from Cons.prems(1) obtain png where png: "png_of L svg t = Inr png" by auto
  let ?w1 = "print (MsgGenerated (png_path dir t) t t)
                   ((print (MsgRendering t t t) w)\<lparr>files := (files w)(png_path dir t \<mapsto> png)\<rparr>)"
  from Cons.prems have "\<forall>s\<in>set sizes. \<exists>png. png_of L svg s = Inr png"
    and "distinct (map (png_path dir) sizes)" by auto
  from Cons.IH [OF this, of ?w1] obtain w' where
    loop: "render_loop L dir svg sw sh sizes ?w1 = (None, w')"
    and gen: "\<forall>s\<in>set sizes. \<exists>png. png_of L svg s = Inr png \<and> files w' (png_path dir s) = Some png"
    by blast
  from Cons.prems(2) have "\<forall>s\<in>set sizes. png_path dir t \<noteq> png_path dir s" by auto
  from render_loop_untouched [OF loop this] have "files w' (png_path dir t) = Some png"
    by (simp add: files_print)
  with loop gen png show ?case by (simp add: render_size_eq)
qed

lemma render_loop_first_failure:
  "render_loop L dir svg sw sh pre w = (None, w1) \<Longrightarrow> png_of L svg t = Inl e \<Longrightarrow>
   render_loop L dir svg sw sh (pre @ t # post) w = (Some e, print (MsgRendering t t t) w1)"
proof (induction pre arbitrary: w)
  case Nil
  then show ?case by (simp add: render_size_eq)
next
  case (Cons s pre)
  then show ?case by (cases "png_of L svg s") (auto simp: render_size_eq)
qed

lemma png_paths_distinct: "distinct (map (png_path dir) target_sizes)"
  by (simp add: target_sizes_def png_path_def str_int_sizes)

lemma png_of_bounds_error:
  "get_svg_content_bounds L svg = Inl e \<Longrightarrow> png_of L svg t = Inl e"
  by (simp add: png_of_def cropped_document_def)

lemma main_found:
  "files w (dir @ ''/favicon.svg'') = Some svg \<Longrightarrow>
   main L dir w = (case main_try L dir svg w of (Some e, w1) \<Rightarrow> (None, print (MsgError e) w1)
                   | (None, w1) \<Rightarrow> (None, w1))"
  by (simp add: main_def Let_def)

lemma main_try_bounds_error:
  "get_svg_content_bounds L svg = Inl e \<Longrightarrow> main_try L dir svg w = (Some e, w)"
  by (simp add: main_try_def get_svg_dimensions_def)

lemma main_try_bounds:
  assumes "get_svg_content_bounds L svg = Inr (a, b, c, d)"
  shows "main_try L dir svg w =
     (let sq = py_max2 (num_sub c a) (num_sub d b);
          w1 = print (MsgSquare (value_of sq))
                 (print (MsgContentSize (value_of (num_sub c a)) (value_of (num_sub d b)))
                   (print (MsgContentBounds (value_of a) (value_of b) (value_of c) (value_of d)) w));
          w2 = print (MsgDimensions sq sq) w1
      in if value_of sq = 0 then (Some ZeroDivisionError, w2)
         else (case render_loop L dir svg sq sq target_sizes
                      (print (MsgAspect (value_of sq / value_of sq)) w2) of
                 (Some e, w4) \<Rightarrow> (Some e, w4)
               | (None, w4) \<Rightarrow>
                   (None, foldl (\<lambda>v size. print (MsgFile size) v)
                            (print MsgGeneratedFiles (print MsgAllGenerated w4)) target_sizes)))"
  using assms by (simp add: main_try_def get_svg_dimensions_def Let_def)

lemma main_first_failure:
  assumes svg: "files w (dir @ ''/favicon.svg'') = Some svg"
    and split: "target_sizes = pre @ t # post"
    and pre: "\<forall>s\<in>set pre. \<exists>png. png_of L svg s = Inr png"
    and fail: "png_of L svg t = Inl e"
    and bounds: "get_svg_content_bounds L svg = Inr (a, b, c, d)"
    and sq: "max (value_of c - value_of a) (value_of d - value_of b) \<noteq> 0"
  shows "\<exists>w1. main L dir w = (None, print (MsgError e) (print (MsgRendering t t t) w1))
      \<and> (\<forall>s\<in>set (t # post). files w1 (png_path dir s) = files w (png_path dir s))
      \<and> (\<forall>s\<in>set pre. \<exists>png. png_of L svg s = Inr png \<and> files w1 (png_path dir s) = Some png)"
proof -
  let ?sq = "py_max2 (num_sub c a) (num_sub d b)"
  let ?w3 = "print (MsgAspect (value_of ?sq / value_of ?sq)) (print (MsgDimensions ?sq ?sq)
               (print (MsgSquare (value_of ?sq))
                 (print (MsgContentSize (value_of (num_sub c a)) (value_of (num_sub d b)))
                   (print (MsgContentBounds (value_of a) (value_of b) (value_of c) (value_of d)) w))))"
  from sq have nz: "value_of ?sq \<noteq> 0" by (simp add: value_of_py_max2 value_of_num_sub)
  have "distinct (map (png_path dir) (pre @ t # post))"
    using png_paths_distinct [of dir] by (simp only: split)
  then have dist: "distinct (map (png_path dir) pre)"
    and apart: "\<forall>s\<in>set (t # post). \<forall>s'\<in>set pre. png_path dir s \<noteq> png_path dir s'"
    by auto
  from render_loop_generated [OF pre dist, of ?sq ?sq ?w3] obtain w1 where
    loop: "render_loop L dir svg ?sq ?sq pre ?w3 = (None, w1)"
    and gen: "\<forall>s\<in>set pre. \<exists>png. png_of L svg s = Inr png \<and> files w1 (png_path dir s) = Some png"
    by blast
  from render_loop_first_failure [OF loop fail, of post]
  have "render_loop L dir svg ?sq ?sq target_sizes ?w3 = (Some e, print (MsgRendering t t t) w1)"
    by (simp add: split)
  with nz have "main_try L dir svg w = (Some e, print (MsgRendering t t t) w1)"
    by (simp add: main_try_bounds [OF bounds] Let_def)
  then have m: "main L dir w = (None, print (MsgError e) (print (MsgRendering t t t) w1))"
    by (simp add: main_found [OF svg])
  have "\<forall>s\<in>set (t # post). files w1 (png_path dir s) = files w (png_path dir s)"
  proof
    fix s assume "s \<in> set (t # post)"
    with apart have "\<forall>s'\<in>set pre. png_path dir s \<noteq> png_path dir s'" by blast
    from render_loop_untouched [OF loop this] show "files w1 (png_path dir s) = files w (png_path dir s)"
      by (simp add: files_print)
  qed
  with m gen show ?thesis by blast
qed

text \<open>
  Claim C3, as the code has it. When rendering a size raises, after the sizes before it were
  rendered, \<open>main\<close> still returns normally and its last printed line is the diagnostic of an
  exception; the file of the failing size and of every later size is left as it was. When
  moreover the bounding box was computed and is not degenerate, the diagnostic is that of
  the failing size and the files of the earlier sizes hold their images.
\<close>

theorem main_stops_at_first_failure:
  assumes svg: "files w (dir @ ''/favicon.svg'') = Some svg"
    and split: "target_sizes = pre @ t # post"
    and pre: "\<forall>s\<in>set pre. \<exists>png. png_of L svg s = Inr png"
    and fail: "png_of L svg t = Inl e"
  shows "\<exists>w' e'. main L dir w = (None, w') \<and> stdout w' \<noteq> [] \<and> last (stdout w') = MsgError e'
      \<and> (\<forall>s\<in>set (t # post). files w' (png_path dir s) = files w (png_path dir s))
      \<and> ((\<exists>a b c d. get_svg_content_bounds L svg = Inr (a, b, c, d)
                    \<and> max (value_of c - value_of a) (value_of d - value_of b) \<noteq> 0)
           \<longrightarrow> e' = e \<and> (\<forall>s\<in>set pre. \<exists>png. png_of L svg s = Inr png
                                \<and> files w' (png_path dir s) = Some png))"
proof (cases "get_svg_content_bounds L svg")
  case (Inl e0)
  then have "main L dir w = (None, print (MsgError e0) w)"
    by (simp add: main_found [OF svg] main_try_bounds_error)
  with Inl show ?thesis by (simp add: stdout_print files_print)
next
  case (Inr bs)
  obtain a b c d where bs: "bs = (a, b, c, d)" by (cases bs) auto
  note bounds = Inr [unfolded bs]
  show ?thesis
  proof (cases "max (value_of c - value_of a) (value_of d - value_of b) = 0")
    case True
    let ?sq = "py_max2 (num_sub c a) (num_sub d b)"
    let ?w2 = "print (MsgDimensions ?sq ?sq) (print (MsgSquare (value_of ?sq))
                 (print (MsgContentSize (value_of (num_sub c a)) (value_of (num_sub d b)))
                   (print (MsgContentBounds (value_of a) (value_of b) (value_of c) (value_of d)) w)))"
    from True have "value_of ?sq = 0" by (simp add: value_of_py_max2 value_of_num_sub)
    then have m: "main L dir w = (None, print (MsgError ZeroDivisionError) ?w2)"
      by (simp add: main_found [OF svg] main_try_bounds [OF bounds] Let_def)
    show ?thesis
      by (rule exI [of _ "print (MsgError ZeroDivisionError) ?w2"], rule exI [of _ ZeroDivisionError])
         (use m True bounds in \<open>simp add: stdout_print files_print\<close>)
  next
    case False
    from main_first_failure [OF svg split pre fail bounds False] obtain w1 where
      m: "main L dir w = (None, print (MsgError e) (print (MsgRendering t t t) w1))"
      and later: "\<forall>s\<in>set (t # post). files w1 (png_path dir s) = files w (png_path dir s)"
      and gen: "\<forall>s\<in>set pre. \<exists>png. png_of L svg s = Inr png \<and> files w1 (png_path dir s) = Some png"
      by blast
    show ?thesis
      by (rule exI [of _ "print (MsgError e) (print (MsgRendering t t t) w1)"], rule exI [of _ e])
         (use m later gen in \<open>simp add: stdout_print files_print\<close>)
  qed
qed

lemma failing_circle_bounds:
  "get_svg_content_bounds failing_library circle_svg =
     Inr (PyFloat 10, PyFloat 10, PyFloat 90, PyFloat 90)"
proof -
  have p: "ET_fromstring failing_library circle_svg = Some circle_doc"
    by (simp add: failing_library_def example_library_def)
  have "all_points failing_library circle_doc = Inr [(50 - 40, 50 - 40), (50 + 40, 50 + 40)]"
    by (rule circle_all_points [OF example_circle_shapes])
       (simp_all add: attr_float_def example_circle_attrs failing_library_def example_library_def
          example_float_def)
  from get_svg_content_bounds_points [OF p this] show ?thesis by simp
qed

lemma failing_png_of:
  "png_of failing_library circle_svg 32 = Inr ''PNG''"
  "png_of failing_library circle_svg 128 = Inl (LibraryError ''MemoryError'')"
  "png_of failing_library circle_svg 256 = Inr ''PNG''"
proof -
  have p: "ET_fromstring failing_library circle_svg = Some circle_doc"
    by (simp add: failing_library_def example_library_def)
  have r: "\<And>doc t. svg2png failing_library doc t t =
      (if t = 128 then Inl (LibraryError ''MemoryError'') else Inr ''PNG'')"
    by (simp add: failing_library_def)
  show "png_of failing_library circle_svg 32 = Inr ''PNG''"
    "png_of failing_library circle_svg 128 = Inl (LibraryError ''MemoryError'')"
    "png_of failing_library circle_svg 256 = Inr ''PNG''"
    by (simp_all add: png_of_def cropped_document_eq [OF failing_circle_bounds p refl refl] r)
qed

lemma example_world_files:
  "files example_world (''/site'' @ ''/favicon.svg'') = Some circle_svg"
  "files example_world (png_path ''/site'' 32) = None"
  "files example_world (png_path ''/site'' 128) = None"
  "files example_world (png_path ''/site'' 256) = None"
  by (simp_all add: example_world_def png_path_def str_int_sizes)

theorem main_stops_at_first_failure_witness:
  "\<exists>w'. main failing_library ''/site'' example_world = (None, w')
      \<and> last (stdout w') = MsgError (LibraryError ''MemoryError'')
      \<and> files w' (png_path ''/site'' 32) = Some ''PNG''
      \<and> files w' (png_path ''/site'' 128) = None
      \<and> files w' (png_path ''/site'' 256) = None"
proof -
  have split: "target_sizes = [32] @ 128 # [256]" by (simp add: target_sizes_def)
  have pre: "\<forall>s\<in>set [32]. \<exists>png. png_of failing_library circle_svg s = Inr png"
    by (simp add: failing_png_of)
  have ok: "\<exists>a b c d. get_svg_content_bounds failing_library circle_svg = Inr (a, b, c, d)
      \<and> max (value_of c - value_of a) (value_of d - value_of b) \<noteq> 0"
    by (simp add: failing_circle_bounds)
  from main_stops_at_first_failure
    [of example_world "''/site''" circle_svg "[32]" 128 "[256]" failing_library "LibraryError ''MemoryError''",
     OF example_world_files(1) split pre failing_png_of(2)] ok
  show ?thesis by (auto simp: example_world_files failing_png_of)
qed

text \<open>
  Claim C3 as stated fails: with a rasteriser that raises for the width 128 only, the size 256
  would render, yet after \<open>main\<close> its file does not exist.
\<close>

theorem later_size_not_generated:
  "png_of failing_library circle_svg 128 = Inl (LibraryError ''MemoryError'')
   \<and> png_of failing_library circle_svg 256 = Inr ''PNG''
   \<and> files (snd (main failing_library ''/site'' example_world)) (png_path ''/site'' 256) = None"
proof -
  have split: "target_sizes = [32] @ 128 # [256]" by (simp add: target_sizes_def)
  have pre: "\<forall>s\<in>set [32]. \<exists>png. png_of failing_library circle_svg s = Inr png"
    by (simp add: failing_png_of)
  have sq: "max (value_of (PyFloat 90) - value_of (PyFloat 10))
                (value_of (PyFloat 90) - value_of (PyFloat 10)) \<noteq> 0" by simp
  from main_first_failure [OF example_world_files(1) split pre failing_png_of(2) failing_circle_bounds sq]
  have "files (snd (main failing_library ''/site'' example_world)) (png_path ''/site'' 256) = None"
    by (auto simp: files_print example_world_files)
  then show ?thesis by (simp add: failing_png_of)
qed

end
